theory Spec2Isabelle
  imports Complex_Main "HOL-Library.Sublist" "HOL-Library.Multiset"
begin

section \<open>Data model\<close>

text \<open>
  A shallow embedding of \<^verbatim>\<open>retrieval/retrieval_workflow.py\<close> and
  \<^verbatim>\<open>retrieval/main_workflow.py\<close>.

  Scores are numpy and Python floats in the source; they are idealised here as
  \<^typ>\<open>real\<close>, so rounding is not modelled. Comparisons of scores, which decide
  the ordering of the result, do not round in the source either.
\<close>

datatype meta_value = MFloat real | MInt int | MStr string

type_synonym metadata_dict = "string \<rightharpoonup> meta_value"

text \<open>\<^verbatim>\<open>langchain.schema.Document\<close>: a text and a metadata dict.\<close>

record Document =
  page_content :: string
  metadata :: metadata_dict

text \<open>
  Documents are Python objects: the lists held by a state hold references to them, and
  \<^verbatim>\<open>doc.metadata[k] = v\<close> changes the object every holder of the reference sees.
  The object store is a list of documents, a reference is an index into it, and
  constructing a \<^verbatim>\<open>Document\<close> appends to the store.
\<close>

type_synonym ref = nat

datatype error =
    Exception string
  | KeyError string
  | IndexError
  | ValueError
  | GraphRecursionError

text \<open>What a run does to the outside, in order: the nodes it enters and the calls it makes.\<close>

datatype event =
    EnterNode string
  | CollectionQuery "string list" nat
  | CollectionGet
  | BM25Invoke string nat
  | RerankerPredict "(string \<times> string) list"
  | ChatInvoke string string
  | Print string

record world =
  heap :: "Document list"
  trace :: "event list"

text \<open>
  The collaborators the modules call but do not define: the Chroma collection
  (\<^verbatim>\<open>collection.query\<close>, \<^verbatim>\<open>collection.get\<close>), the BM25 retriever
  (\<^verbatim>\<open>BM25Retriever.from_documents\<close>, \<^verbatim>\<open>k\<close>, \<^verbatim>\<open>invoke\<close>), the cross encoder
  (\<^verbatim>\<open>reranker.predict\<close>) and the chat model (\<^verbatim>\<open>chat.invoke\<close>, whose result
  is the \<^verbatim>\<open>content\<close> of the response). Each either raises or returns. The result
  dicts of the collection are tuples in the order documents, metadatas, distances.

  The last field is \<^verbatim>\<open>str.strip\<close> of the Python runtime. It removes the leading and
  trailing whitespace of a Unicode text, which covers characters beyond the 8-bit
  characters of \<^typ>\<open>string\<close>; it is therefore not defined here but taken as the
  function it is on whatever encoding of texts a \<^typ>\<open>string\<close> stands for.
\<close>

record env =
  collection_query ::
    "string list \<Rightarrow> nat \<Rightarrow>
       error + (string list list \<times> metadata_dict option list list \<times> real list list)"
  collection_get :: "error + (string list \<times> metadata_dict option list)"
  bm25_retrieve :: "Document list \<Rightarrow> nat \<Rightarrow> string \<Rightarrow> error + Document list"
  reranker_predict :: "(string \<times> string) list \<Rightarrow> error + real list"
  chat_invoke :: "string \<Rightarrow> string \<Rightarrow> error + string"
  str_strip :: "string \<Rightarrow> string"

text \<open>
  \<^verbatim>\<open>main_workflow.InputState\<close> is declared \<^verbatim>\<open>total=False\<close>: a run starts from
  \<^verbatim>\<open>{"query": question}\<close> and the other keys appear as the nodes write them.
\<close>

record OutputState =
  answer :: string

record InputState =
  query :: string
  query_type :: "string option"
  retrieved_documents :: "ref list option"
  answer :: "string option"

text \<open>
  \<^verbatim>\<open>retrieval_workflow.RetrievalOutputState\<close> and \<^verbatim>\<open>RetrievalInputState\<close>; the
  input state has the keys of the output state and two more.
\<close>

record RetrievalOutputState =
  query :: string
  retrieved_documents :: "ref list"

record RetrievalInputState = RetrievalOutputState +
  semantic_docs :: "ref list"
  bm25_docs :: "ref list"

section \<open>Configuration\<close>

definition NR_RETRIEVED_DOCS :: nat where
  "NR_RETRIEVED_DOCS = 25"

definition NR_FINAL_DOCS :: nat where
  "NR_FINAL_DOCS = 5"

section \<open>The object store\<close>

definition log_event :: "event \<Rightarrow> world \<Rightarrow> world" where
  "log_event e w = w\<lparr>trace := trace w @ [e]\<rparr>"

definition new_document :: "Document \<Rightarrow> world \<Rightarrow> ref \<times> world" where
  "new_document d w = (length (heap w), w\<lparr>heap := heap w @ [d]\<rparr>)"

text \<open>\<^verbatim>\<open>doc.metadata[k] = v\<close> for the document at reference \<open>r\<close>.\<close>

definition set_metadata :: "ref \<Rightarrow> string \<Rightarrow> meta_value \<Rightarrow> world \<Rightarrow> world" where
  "set_metadata r k v w =
     w\<lparr>heap := (heap w)[r := (heap w ! r)\<lparr>metadata := (metadata (heap w ! r))(k \<mapsto> v)\<rparr>]\<rparr>"

section \<open>Fusion: \<^verbatim>\<open>merge_and_rerank_node\<close>\<close>

text \<open>
  \<^verbatim>\<open>
  normalized_scores = (
      (scores - scores.min()) / (scores.max() - scores.min() + 1e-6)
      if scores.max() > scores.min()
      else np.ones_like(scores) * 0.5
  )
  \<close>
  Over the reals the quotient of the largest score is below 1; in the floats of the
  source it may round to exactly 1, and an overflowing spread gives no number at all.
  What is stated of the values below is limited to what rounding preserves, for scores
  far from overflow.
\<close>

definition normalize_scores :: "real list \<Rightarrow> real list" where
  "normalize_scores scores =
     (if Max (set scores) > Min (set scores)
      then map (\<lambda>s. (s - Min (set scores)) /
                     (Max (set scores) - Min (set scores) + 1 / 1000000)) scores
      else map (\<lambda>s. 1 * (1 / 2)) scores)"

text \<open>
  \<^verbatim>\<open>
  for i, doc in enumerate(all_docs):
      doc.metadata["crossencoder_score"] = float(normalized_scores[i])
  \<close>
  Indexing the array past its end raises, after the earlier documents were written.
\<close>

fun store_scores :: "nat \<Rightarrow> ref list \<Rightarrow> real list \<Rightarrow> world \<Rightarrow> error option \<times> world" where
  "store_scores i [] normalized_scores w = (None, w)"
| "store_scores i (doc # rest) normalized_scores w =
     (if i < length normalized_scores
      then store_scores (Suc i) rest normalized_scores
             (set_metadata doc ''crossencoder_score'' (MFloat (normalized_scores ! i)) w)
      else (Some IndexError, w))"

text \<open>
  \<^verbatim>\<open>sorted(xs, key=key, reverse=True)\<close>: CPython reverses the list, sorts it stably in
  ascending order of the key, and reverses the result.
\<close>

definition sorted_reverse :: "('a \<Rightarrow> real) \<Rightarrow> 'a list \<Rightarrow> 'a list" where
  "sorted_reverse key xs = rev (sort_key key (rev xs))"

definition merge_and_rerank_node ::
  "env \<Rightarrow> 'a RetrievalInputState_scheme \<Rightarrow> world \<Rightarrow> (error + RetrievalOutputState) \<times> world"
where
  "merge_and_rerank_node ev state w =
     (let all_docs = semantic_docs state @ bm25_docs state in
      if all_docs = []
      then (Inr \<lparr>query = query state, retrieved_documents = []\<rparr>, w)
      else
        let doc_texts = map (\<lambda>doc. page_content (heap w ! doc)) all_docs;
            pairs = map (\<lambda>doc_text. (query state, doc_text)) doc_texts;
            w1 = log_event (RerankerPredict pairs) w
        in case reranker_predict ev pairs of
             Inl e \<Rightarrow> (Inl e, w1)
           | Inr scores \<Rightarrow>
               if scores = [] then (Inl ValueError, w1)
               else
                 let normalized_scores = normalize_scores scores
                 in (case store_scores 0 all_docs normalized_scores w1 of
                       (Some e, w2) \<Rightarrow> (Inl e, w2)
                     | (None, w2) \<Rightarrow>
                         let sorted_docs = map snd (sorted_reverse fst (zip scores all_docs));
                             top_docs = take NR_FINAL_DOCS sorted_docs
                         in (Inr \<lparr>query = query state, retrieved_documents = top_docs\<rparr>, w2)))"

text \<open>The locals \<^verbatim>\<open>all_docs\<close> and \<^verbatim>\<open>pairs\<close> of \<^verbatim>\<open>merge_and_rerank_node\<close>, for the statements below.\<close>

abbreviation candidates :: "'a RetrievalInputState_scheme \<Rightarrow> ref list" where
  "candidates state \<equiv> semantic_docs state @ bm25_docs state"

abbreviation rerank_pairs :: "'a RetrievalInputState_scheme \<Rightarrow> world \<Rightarrow> (string \<times> string) list" where
  "rerank_pairs state w \<equiv>
     map (\<lambda>doc_text. (query state, doc_text))
       (map (\<lambda>doc. page_content (heap w ! doc)) (semantic_docs state @ bm25_docs state))"

section \<open>Vector adapter: \<^verbatim>\<open>semantic_search_node\<close>\<close>

text \<open>\<^verbatim>\<open>meta or {}\<close>: a missing or empty metadata dict counts as the empty dict.\<close>

definition or_empty :: "metadata_dict option \<Rightarrow> metadata_dict" where
  "or_empty meta = (case meta of None \<Rightarrow> Map.empty | Some m \<Rightarrow> m)"

text \<open>\<^verbatim>\<open>xs[0]\<close>\<close>

definition item0 :: "'a list \<Rightarrow> error + 'a" where
  "item0 xs = (case xs of [] \<Rightarrow> Inl IndexError | x # _ \<Rightarrow> Inr x)"

text \<open>
  The \<^verbatim>\<open>Document\<close> built in the body of the loop over
  \<^verbatim>\<open>zip(documents[0], metadatas[0], distances[0])\<close>: the keys written after
  \<^verbatim>\<open>**(meta or {})\<close> replace the ones the stored metadata may hold.
\<close>

definition semantic_document :: "string \<Rightarrow> metadata_dict option \<Rightarrow> real \<Rightarrow> Document" where
  "semantic_document doc meta distance =
     (let vector_score = max 0 (1 - distance)
      in \<lparr>page_content = doc,
          metadata = (or_empty meta)
            (''vector_score'' \<mapsto> MFloat vector_score,
             ''bm25_score'' \<mapsto> MFloat 0,
             ''colbert_score'' \<mapsto> MFloat 0,
             ''context_score'' \<mapsto> MFloat 0,
             ''retrieval_method'' \<mapsto> MStr ''vector'')\<rparr>)"

fun semantic_loop ::
  "(string \<times> metadata_dict option \<times> real) list \<Rightarrow> ref list \<Rightarrow> world \<Rightarrow> ref list \<times> world"
where
  "semantic_loop [] docs w = (docs, w)"
| "semantic_loop ((doc, meta, distance) # rest) docs w =
     (case new_document (semantic_document doc meta distance) w of
        (r, w') \<Rightarrow> semantic_loop rest (docs @ [r]) w')"

definition semantic_search_node ::
  "env \<Rightarrow> RetrievalInputState \<Rightarrow> world \<Rightarrow> (error + RetrievalInputState) \<times> world"
where
  "semantic_search_node ev state w =
     (let w1 = log_event (CollectionQuery [query state] NR_RETRIEVED_DOCS) w
      in case collection_query ev [query state] NR_RETRIEVED_DOCS of
           Inl e \<Rightarrow> (Inl e, w1)
         | Inr (documents, metadatas, distances) \<Rightarrow>
             (case item0 documents of
                Inl e \<Rightarrow> (Inl e, w1)
              | Inr documents0 \<Rightarrow>
                  (case item0 metadatas of
                     Inl e \<Rightarrow> (Inl e, w1)
                   | Inr metadatas0 \<Rightarrow>
                       (case item0 distances of
                          Inl e \<Rightarrow> (Inl e, w1)
                        | Inr distances0 \<Rightarrow>
                            (case semantic_loop (zip documents0 (zip metadatas0 distances0)) [] w1 of
                               (docs, w2) \<Rightarrow> (Inr (state\<lparr>semantic_docs := docs\<rparr>), w2))))))"

section \<open>Lexical adapter: \<^verbatim>\<open>bm25_search_node\<close>\<close>

text \<open>
  The \<^verbatim>\<open>Document\<close> built in the body of the loop over \<^verbatim>\<open>enumerate(results)\<close>;
  \<open>n\<close> is \<^verbatim>\<open>len(results)\<close>, which is positive whenever the body runs.
\<close>

definition bm25_document :: "nat \<Rightarrow> nat \<Rightarrow> Document \<Rightarrow> Document" where
  "bm25_document i n doc =
     (let bm25_score = 1 - (real i / real n)
      in \<lparr>page_content = page_content doc,
          metadata = (metadata doc)
            (''bm25_score'' \<mapsto> MFloat bm25_score,
             ''vector_score'' \<mapsto> MFloat 0,
             ''colbert_score'' \<mapsto> MFloat 0,
             ''context_score'' \<mapsto> MFloat 0,
             ''retrieval_method'' \<mapsto> MStr ''bm25'')\<rparr>)"

fun bm25_loop :: "nat \<Rightarrow> Document list \<Rightarrow> nat \<Rightarrow> ref list \<Rightarrow> world \<Rightarrow> ref list \<times> world" where
  "bm25_loop i [] n docs w = (docs, w)"
| "bm25_loop i (doc # rest) n docs w =
     (case new_document (bm25_document i n doc) w of
        (r, w') \<Rightarrow> bm25_loop (Suc i) rest n (docs @ [r]) w')"

text \<open>\<^verbatim>\<open>str(e)\<close>\<close>

fun error_str :: "error \<Rightarrow> string" where
  "error_str (Exception msg) = msg"
| "error_str (KeyError k) = [CHR 0x27] @ k @ [CHR 0x27]"
| "error_str IndexError = ''list index out of range''"
| "error_str ValueError = []"
| "error_str GraphRecursionError = []"

text \<open>The \<^verbatim>\<open>except Exception as e\<close> branch.\<close>

definition bm25_failed ::
  "error \<Rightarrow> RetrievalInputState \<Rightarrow> world \<Rightarrow> (error + RetrievalInputState) \<times> world"
where
  "bm25_failed e state w =
     (Inr (state\<lparr>bm25_docs := []\<rparr>),
      log_event (Print (''[ERROR] BM25 retrieval failed: '' @ error_str e)) w)"

text \<open>
  The documents built from the whole collection and handed to the retriever live only
  inside the call and are never written to, so they are values here; the documents the
  node keeps in the state are allocated in the store.
\<close>

text \<open>
  \<^verbatim>\<open>[Document(page_content=doc, metadata=meta or {}) for doc, meta in zip(documents, metadatas)]\<close>
\<close>

definition corpus_documents :: "string list \<Rightarrow> metadata_dict option list \<Rightarrow> Document list" where
  "corpus_documents documents metadatas =
     map (\<lambda>(doc, meta). \<lparr>page_content = doc, metadata = or_empty meta\<rparr>) (zip documents metadatas)"

definition bm25_search_node ::
  "env \<Rightarrow> RetrievalInputState \<Rightarrow> world \<Rightarrow> (error + RetrievalInputState) \<times> world"
where
  "bm25_search_node ev state w =
     (let w1 = log_event CollectionGet w
      in case collection_get ev of
           Inl e \<Rightarrow> bm25_failed e state w1
         | Inr (documents, metadatas) \<Rightarrow>
             let all_docs = corpus_documents documents metadatas;
                 w2 = log_event (BM25Invoke (query state) NR_RETRIEVED_DOCS) w1
             in (case bm25_retrieve ev all_docs NR_RETRIEVED_DOCS (query state) of
                   Inl e \<Rightarrow> bm25_failed e state w2
                 | Inr results \<Rightarrow>
                     (case bm25_loop 0 results (length results) [] w2 of
                        (docs, w3) \<Rightarrow> (Inr (state\<lparr>bm25_docs := docs\<rparr>), w3))))"

section \<open>The retrieval sub-graph\<close>

text \<open>
  \<^verbatim>\<open>START \<rightarrow> semantic_search \<rightarrow> bm25_search \<rightarrow> merge_and_rerank \<rightarrow> END\<close>, started from the
  \<^verbatim>\<open>query\<close> of the state it is invoked with. The keys the nodes fill are not read before
  they are written; they start empty here.
\<close>

definition retrieval_app_invoke ::
  "env \<Rightarrow> string \<Rightarrow> world \<Rightarrow> (error + RetrievalOutputState) \<times> world"
where
  "retrieval_app_invoke ev q w =
     (let state0 = \<lparr>query = q, retrieved_documents = [], semantic_docs = [], bm25_docs = []\<rparr>
      in case semantic_search_node ev state0 (log_event (EnterNode ''semantic_search'') w) of
           (Inl e, w1) \<Rightarrow> (Inl e, w1)
         | (Inr state1, w1) \<Rightarrow>
             (case bm25_search_node ev state1 (log_event (EnterNode ''bm25_search'') w1) of
                (Inl e, w2) \<Rightarrow> (Inl e, w2)
              | (Inr state2, w2) \<Rightarrow>
                  merge_and_rerank_node ev state2 (log_event (EnterNode ''merge_and_rerank'') w2)))"

section \<open>The chat model: \<^verbatim>\<open>query_ai\<close>\<close>

text \<open>
  \<^verbatim>\<open>return response.content.strip() if response.content else ""\<close>
\<close>

definition query_ai :: "env \<Rightarrow> string \<Rightarrow> string \<Rightarrow> world \<Rightarrow> (error + string) \<times> world" where
  "query_ai ev system_prompt user_prompt w =
     (let w1 = log_event (ChatInvoke system_prompt user_prompt) w
      in case chat_invoke ev system_prompt user_prompt of
           Inl e \<Rightarrow> (Inl e, w1)
         | Inr content \<Rightarrow> (Inr (if content \<noteq> [] then str_strip ev content else []), w1))"

section \<open>Prompt templates\<close>

text \<open>The two system prompts of \<^verbatim>\<open>prompt_templates\<close> the workflow uses.\<close>

definition triage_prompt_system :: string where
  \<open>triage_prompt_system =
     ''You are an assistant that classifies user questions into two categories:'' @ [CHR 0x0A] @
     [CHR 0x0A] @
     ''- DATA_QUESTION: The question is related to demography, population, or '' @
     ''the World Population Prospects published by the United Nations.'' @ [CHR 0x0A] @
     ''- OUT_OF_SCOPE: The question is not related to these topics.'' @ [CHR 0x0A] @
     [CHR 0x0A] @
     ''Return exactly one label: either DATA_QUESTION or OUT_OF_SCOPE.'' @ [CHR 0x0A] @
     [CHR 0x0A] @
     ''Examples:'' @ [CHR 0x0A] @
     ''Q: "What is the current population growth rate in Africa?"'' @ [CHR 0x0A] @
     ''A: DATA_QUESTION'' @ [CHR 0x0A] @
     [CHR 0x0A] @
     ''Q: "Who won the last World Cup?"'' @ [CHR 0x0A] @
     ''A: OUT_OF_SCOPE'' @ [CHR 0x0A] @
     [CHR 0x0A] @
     ''Q: "Tell me about the latest World Population Prospects report."'' @ [CHR 0x0A] @
     ''A: DATA_QUESTION'' @ [CHR 0x0A] @
     [CHR 0x0A] @
     ''Q: "What is the weather forecast for Paris?"'' @ [CHR 0x0A] @
     ''A: OUT_OF_SCOPE'' @ [CHR 0x0A] @
     [CHR 0x0A] @
     ''Classify this question: {user_question}''\<close>

definition answer_generation_prompt_system :: string where
  \<open>answer_generation_prompt_system =
     ''You are a helpful assistant. Using the provided context documents and '' @
     ''the user query, generate a clear, concise, and informative answer.'' @ [CHR 0x0A] @
     [CHR 0x0A] @
     ''- Use only the information found in the context.'' @ [CHR 0x0A] @
     ''- Do not include information outside the provided documents.'' @ [CHR 0x0A] @
     ''- If the answer cannot be found in the context, politely say that you '' @
     ''do not have enough information to answer.'' @ [CHR 0x0A] @
     [CHR 0x0A] @
     ''User Question:'' @ [CHR 0x0A] @
     ''{user_question}'' @ [CHR 0x0A] @
     [CHR 0x0A] @
     ''Context:'' @ [CHR 0x0A] @
     ''{retrieved_documents_text}'' @ [CHR 0x0A] @
     [CHR 0x0A] @
     ''Answer:''\<close>

section \<open>The main workflow\<close>

definition triage_node :: "env \<Rightarrow> InputState \<Rightarrow> world \<Rightarrow> (error + InputState) \<times> world" where
  "triage_node ev state w =
     (let query = InputState.query state
      in case query_ai ev triage_prompt_system (''Evaluate user query: '' @ query) w of
           (Inl e, w1) \<Rightarrow> (Inl e, w1)
         | (Inr triage_result, w1) \<Rightarrow>
             (Inr (state\<lparr>InputState.query_type := Some triage_result\<rparr>), w1))"

definition out_of_scope_node :: "InputState \<Rightarrow> OutputState" where
  "out_of_scope_node state = \<lparr>OutputState.answer = ''Your query is out of scope.''\<rparr>"

definition retrieval ::
  "env \<Rightarrow> InputState \<Rightarrow> world \<Rightarrow> (error + RetrievalOutputState) \<times> world"
where
  "retrieval ev state w = retrieval_app_invoke ev (InputState.query state) w"

text \<open>\<^verbatim>\<open>sep.join(xs)\<close>\<close>

fun join :: "string \<Rightarrow> string list \<Rightarrow> string" where
  "join sep [] = []"
| "join sep [x] = x"
| "join sep (x # y # ys) = x @ sep @ join sep (y # ys)"

definition generate_answer_node ::
  "env \<Rightarrow> InputState \<Rightarrow> world \<Rightarrow> (error + OutputState) \<times> world"
where
  "generate_answer_node ev state w =
     (let query = InputState.query state
      in case InputState.retrieved_documents state of
           None \<Rightarrow> (Inl (KeyError ''retrieved_documents''), w)
         | Some docs \<Rightarrow>
             let context = join [CHR 0x0A, CHR 0x0A] (map (\<lambda>doc. page_content (heap w ! doc)) docs)
             in (case query_ai ev answer_generation_prompt_system
                        (''Evaluate user query: '' @ query @ '' with context: '' @ context) w of
                   (Inl e, w1) \<Rightarrow> (Inl e, w1)
                 | (Inr answer_result, w1) \<Rightarrow> (Inr \<lparr>OutputState.answer = answer_result\<rparr>, w1)))"

subsection \<open>The graph\<close>

definition END :: string where
  "END = ''__end__''"

text \<open>
  \<^verbatim>\<open>
  workflow.add_conditional_edges("triage", lambda s: s["query_type"],
      {"OUT_OF_SCOPE": "out_of_scope", "DATA_QUESTION": "retrieval"})
  workflow.add_edge("retrieval", "answer")
  workflow.add_edge("out_of_scope", END)
  workflow.add_edge("answer", END)
  \<close>
\<close>

definition path_map :: "(string \<times> string) list" where
  "path_map = [(''OUT_OF_SCOPE'', ''out_of_scope''), (''DATA_QUESTION'', ''retrieval'')]"

definition edges :: "(string \<times> string) list" where
  "edges = [(''retrieval'', ''answer''), (''out_of_scope'', END), (''answer'', END)]"

text \<open>
  The node that follows \<open>name\<close>. After \<^verbatim>\<open>triage\<close> the label \<^verbatim>\<open>s["query_type"]\<close> is
  looked up in the dict of the conditional edge; a label that is not a key of the dict
  has no destination, and the lookup fails.
\<close>

definition next_node :: "string \<Rightarrow> InputState \<Rightarrow> error + string" where
  "next_node name state =
     (if name = ''triage''
      then (case InputState.query_type state of
              None \<Rightarrow> Inl (KeyError ''query_type'')
            | Some label \<Rightarrow>
                (case map_of path_map label of
                   None \<Rightarrow> Inl (KeyError label)
                 | Some dest \<Rightarrow> Inr dest))
      else (case map_of edges name of
              None \<Rightarrow> Inr END
            | Some dest \<Rightarrow> Inr dest))"

text \<open>
  Running the node registered under \<open>name\<close> and writing the keys it returns into the
  state of the graph.
\<close>

definition run_node :: "env \<Rightarrow> string \<Rightarrow> InputState \<Rightarrow> world \<Rightarrow> (error + InputState) \<times> world" where
  "run_node ev name state w =
     (if name = ''triage'' then triage_node ev state w
      else if name = ''retrieval'' then
        (case retrieval ev state w of
           (Inl e, w1) \<Rightarrow> (Inl e, w1)
         | (Inr out, w1) \<Rightarrow>
             (Inr (state\<lparr>InputState.query := query out,
                         InputState.retrieved_documents := Some (retrieved_documents out)\<rparr>), w1))
      else if name = ''out_of_scope'' then
        (Inr (state\<lparr>InputState.answer := Some (OutputState.answer (out_of_scope_node state))\<rparr>), w)
      else if name = ''answer'' then
        (case generate_answer_node ev state w of
           (Inl e, w1) \<Rightarrow> (Inl e, w1)
         | (Inr out, w1) \<Rightarrow> (Inr (state\<lparr>InputState.answer := Some (OutputState.answer out)\<rparr>), w1))
      else (Inl (KeyError name), w))"

text \<open>The graph library stops a run after this many steps.\<close>

definition recursion_limit :: nat where
  "recursion_limit = 25"

fun run_graph ::
  "nat \<Rightarrow> env \<Rightarrow> string \<Rightarrow> InputState \<Rightarrow> world \<Rightarrow> (error + InputState) \<times> world"
where
  "run_graph fuel ev name state w =
     (if name = END then (Inr state, w)
      else case fuel of
             0 \<Rightarrow> (Inl GraphRecursionError, w)
           | Suc fuel' \<Rightarrow>
               (case run_node ev name state (log_event (EnterNode name) w) of
                  (Inl e, w1) \<Rightarrow> (Inl e, w1)
                | (Inr state', w1) \<Rightarrow>
                    (case next_node name state' of
                       Inl e \<Rightarrow> (Inl e, w1)
                     | Inr dest \<Rightarrow> run_graph fuel' ev dest state' w1)))"

text \<open>
  \<^verbatim>\<open>main_rag_app.invoke({"query": question})\<close>: the entry point is \<^verbatim>\<open>triage\<close>, and the
  result is the \<^verbatim>\<open>answer\<close> key of the final state, the one key of the output state; the
  key is absent when no node wrote it.
\<close>

definition main_rag_app_invoke ::
  "env \<Rightarrow> string \<Rightarrow> world \<Rightarrow> (error + string option) \<times> world"
where
  "main_rag_app_invoke ev question w =
     (case run_graph recursion_limit ev ''triage''
             \<lparr>InputState.query = question, InputState.query_type = None,
              InputState.retrieved_documents = None, InputState.answer = None\<rparr> w of
        (Inl e, w1) \<Rightarrow> (Inl e, w1)
      | (Inr state, w1) \<Rightarrow> (Inr (InputState.answer state), w1))"

section \<open>Example inputs\<close>

text \<open>
  A collection whose vector search returns two chunks and whose lexical search returns
  three, one chunk being in both results; a reranker with two equal raw scores among its
  first seven; a chat model that answers the triage prompt with the out-of-scope label.
  The answers of the example are ASCII texts, on which \<^verbatim>\<open>str.strip\<close> removes the ten
  whitespace characters of the ASCII range from both ends.
\<close>

definition ascii_space :: "char \<Rightarrow> bool" where
  "ascii_space c =
     (c \<in> set [CHR 0x09, CHR 0x0A, CHR 0x0B, CHR 0x0C, CHR 0x0D,
               CHR 0x1C, CHR 0x1D, CHR 0x1E, CHR 0x1F, CHR 0x20])"

definition example_strip :: "string \<Rightarrow> string" where
  "example_strip s = rev (dropWhile ascii_space (rev (dropWhile ascii_space s)))"

definition example_env :: env where
  "example_env =
     \<lparr>collection_query = (\<lambda>query_texts n_results.
         Inr ([[''alpha'', ''beta'']], [[None, None]], [[1 / 4, 3 / 2]])),
      collection_get = Inr ([''alpha'', ''gamma'', ''delta''], [None, None, None]),
      bm25_retrieve = (\<lambda>docs k q. Inr (take k docs)),
      reranker_predict = (\<lambda>pairs. Inr (take (length pairs) [3, 1, 4, 1, 5, 9, 2, 6])),
      chat_invoke = (\<lambda>system_prompt user_prompt. Inr '' OUT_OF_SCOPE''),
      str_strip = example_strip\<rparr>"

text \<open>A store of seven documents without metadata, and a state that refers to all of them.\<close>

definition example_world :: world where
  "example_world =
     \<lparr>heap = map (\<lambda>text. \<lparr>page_content = text, metadata = Map.empty\<rparr>)
               [''a'', ''b'', ''c'', ''d'', ''e'', ''f'', ''g''],
      trace = []\<rparr>"

definition example_state :: RetrievalInputState where
  "example_state =
     \<lparr>query = ''q'', retrieved_documents = [], semantic_docs = [0, 1, 2, 3], bm25_docs = [4, 5, 6]\<rparr>"

section \<open>Normalization of the reranker scores\<close>

lemma normalize_scores_length: "length (normalize_scores scores) = length scores"
  by (simp add: normalize_scores_def)

lemma normalize_scores_nth_spread:
  assumes "Min (set scores) < Max (set scores)" "i < length scores"
  shows "normalize_scores scores ! i =
           (scores ! i - Min (set scores)) / (Max (set scores) - Min (set scores) + 1 / 1000000)"
  using assms by (simp add: normalize_scores_def)

lemma normalize_scores_uniform:
  assumes "\<not> Min (set scores) < Max (set scores)"
  shows "normalize_scores scores = replicate (length scores) (1 / 2)"
  using assms by (simp add: normalize_scores_def map_replicate_const)

lemma all_equal_iff:
  fixes scores :: "real list"
  assumes "scores \<noteq> []"
  shows "(\<forall>x\<in>set scores. \<forall>y\<in>set scores. x = y) \<longleftrightarrow> \<not> Min (set scores) < Max (set scores)"
proof
  assume eq: "\<forall>x\<in>set scores. \<forall>y\<in>set scores. x = y"
  have "Min (set scores) \<in> set scores" "Max (set scores) \<in> set scores"
    using assms by simp_all
  with eq show "\<not> Min (set scores) < Max (set scores)" by auto
next
  assume n: "\<not> Min (set scores) < Max (set scores)"
  show "\<forall>x\<in>set scores. \<forall>y\<in>set scores. x = y"
  proof (intro ballI)
    fix x y assume "x \<in> set scores" "y \<in> set scores"
    then have "Min (set scores) \<le> x" "x \<le> Max (set scores)" "Min (set scores) \<le> y" "y \<le> Max (set scores)"
      by simp_all
    with n show "x = y" by linarith
  qed
qed

lemma normalize_scores_bounds:
  assumes "scores \<noteq> []" "i < length scores"
  shows "0 \<le> normalize_scores scores ! i \<and> normalize_scores scores ! i < 1"
proof (cases "Min (set scores) < Max (set scores)")
  case True
  let ?lo = "Min (set scores)" and ?hi = "Max (set scores)"
  have x: "?lo \<le> scores ! i" "scores ! i \<le> ?hi"
    using assms by simp_all
  have "normalize_scores scores ! i = (scores ! i - ?lo) / (?hi - ?lo + 1 / 1000000)"
    using True assms(2) by (rule normalize_scores_nth_spread)
  moreover have "0 \<le> (scores ! i - ?lo) / (?hi - ?lo + 1 / 1000000)"
    using x True by simp
  moreover have "(scores ! i - ?lo) / (?hi - ?lo + 1 / 1000000) < 1"
    using x True by (simp add: divide_simps)
  ultimately show ?thesis by simp
next
  case False
  then show ?thesis using assms(2) by (simp add: normalize_scores_uniform)
qed

lemma normalize_scores_mono:
  assumes "i < length scores" "j < length scores" "scores ! i \<le> scores ! j"
  shows "normalize_scores scores ! i \<le> normalize_scores scores ! j"
proof (cases "Min (set scores) < Max (set scores)")
  case True
  have "(scores ! i - Min (set scores)) / (Max (set scores) - Min (set scores) + 1 / 1000000)
          \<le> (scores ! j - Min (set scores)) / (Max (set scores) - Min (set scores) + 1 / 1000000)"
    using True assms(3) by (simp add: divide_right_mono)
  then show ?thesis
    using normalize_scores_nth_spread [OF True assms(1)] normalize_scores_nth_spread [OF True assms(2)]
    by simp
next
  case False
  then show ?thesis using assms(1,2) by (simp add: normalize_scores_uniform)
qed

text \<open>
  C1 (amended). For every non-empty batch of raw reranker scores of magnitude at most
  \<open>1e38\<close> (so that nothing overflows in the source), every normalized score lies in
  \<open>[0, 1]\<close> and normalization never reverses the order of two raw scores. When the raw
  scores are not all equal, a candidate holding the minimum receives 0 and a candidate
  holding the maximum receives a positive score that is the largest of the batch; it is
  within \<open>2e-6\<close> of 1 when \<open>max - min \<ge> 1\<close>, and need not be close to 1 otherwise. When
  all raw scores are equal, every candidate receives 0.5.
\<close>

theorem normalize_scores_batch:
  assumes "scores \<noteq> []" and "\<forall>s\<in>set scores. \<bar>s\<bar> \<le> 10 ^ 38"
  shows "length (normalize_scores scores) = length scores
       \<and> (\<forall>i<length scores. 0 \<le> normalize_scores scores ! i \<and> normalize_scores scores ! i \<le> 1)
       \<and> (\<forall>i<length scores. \<forall>j<length scores.
              scores ! i \<le> scores ! j \<longrightarrow> normalize_scores scores ! i \<le> normalize_scores scores ! j)
       \<and> (Min (set scores) < Max (set scores) \<longrightarrow>
            (\<forall>i<length scores.
               (scores ! i = Min (set scores) \<longrightarrow> normalize_scores scores ! i = 0)
             \<and> (scores ! i = Max (set scores) \<longrightarrow>
                   0 < normalize_scores scores ! i
                 \<and> (\<forall>j<length scores. normalize_scores scores ! j \<le> normalize_scores scores ! i)
                 \<and> (1 \<le> Max (set scores) - Min (set scores) \<longrightarrow>
                       1 - 2 / 1000000 \<le> normalize_scores scores ! i))))
       \<and> ((\<forall>x\<in>set scores. \<forall>y\<in>set scores. x = y) \<longrightarrow>
            normalize_scores scores = replicate (length scores) (1 / 2))"
proof (intro conjI)
  show "length (normalize_scores scores) = length scores"
    by (rule normalize_scores_length)
  show "\<forall>i<length scores. 0 \<le> normalize_scores scores ! i \<and> normalize_scores scores ! i \<le> 1"
    using normalize_scores_bounds [OF assms(1)] by (auto intro: less_imp_le)
  show "\<forall>i<length scores. \<forall>j<length scores.
              scores ! i \<le> scores ! j \<longrightarrow> normalize_scores scores ! i \<le> normalize_scores scores ! j"
    by (simp add: normalize_scores_mono)
  show "(\<forall>x\<in>set scores. \<forall>y\<in>set scores. x = y) \<longrightarrow>
            normalize_scores scores = replicate (length scores) (1 / 2)"
    using all_equal_iff [OF assms(1)] normalize_scores_uniform by blast
  show "Min (set scores) < Max (set scores) \<longrightarrow>
            (\<forall>i<length scores.
               (scores ! i = Min (set scores) \<longrightarrow> normalize_scores scores ! i = 0)
             \<and> (scores ! i = Max (set scores) \<longrightarrow>
                   0 < normalize_scores scores ! i
                 \<and> (\<forall>j<length scores. normalize_scores scores ! j \<le> normalize_scores scores ! i)
                 \<and> (1 \<le> Max (set scores) - Min (set scores) \<longrightarrow>
                       1 - 2 / 1000000 \<le> normalize_scores scores ! i)))"
  proof (intro impI allI conjI)
    fix i
    assume sp: "Min (set scores) < Max (set scores)" and i: "i < length scores"
    let ?d = "Max (set scores) - Min (set scores)"
    have d: "0 < ?d" using sp by simp
    note v = normalize_scores_nth_spread [OF sp i]
    {
      assume "scores ! i = Min (set scores)"
      then show "normalize_scores scores ! i = 0" using v by simp
    }
    {
      assume mx: "scores ! i = Max (set scores)"
      then have top: "normalize_scores scores ! i = ?d / (?d + 1 / 1000000)"
        using v by simp
      then show "0 < normalize_scores scores ! i" using d by simp
      {
        fix j assume j: "j < length scores"
        have "scores ! j \<le> scores ! i" using j mx by simp
        then show "normalize_scores scores ! j \<le> normalize_scores scores ! i"
          by (rule normalize_scores_mono [OF j i])
      }
      {
        assume "1 \<le> ?d"
        then show "1 - 2 / 1000000 \<le> normalize_scores scores ! i"
          unfolding top by (simp add: divide_simps)
      }
    }
  qed
qed

text \<open>The batches \<open>[0, 2, 1]\<close> (spread out) and \<open>[3, 3]\<close> (all equal).\<close>

theorem normalize_scores_batch_witness:
  "[0, 2, 1] \<noteq> ([] :: real list)
   \<and> Max (set (map abs [0, 2, 1 :: real])) \<le> 10 ^ 38
   \<and> normalize_scores [0, 2, 1] ! 0 = 0
   \<and> 1 - 2 / 1000000 \<le> normalize_scores [0, 2, 1] ! 1
   \<and> normalize_scores [0, 2, 1] ! 1 \<le> 1
   \<and> normalize_scores [0, 2, 1] ! 2 \<le> normalize_scores [0, 2, 1] ! 1
   \<and> normalize_scores [3, 3] = [1 / 2, 1 / 2]"
proof -
  let ?xs = "[0, 2, 1] :: real list"
  have h1: "?xs \<noteq> []" and h1': "[3, 3] \<noteq> ([] :: real list)" by simp_all
  have h2: "\<forall>s\<in>set ?xs. \<bar>s\<bar> \<le> 10 ^ 38"
    and h2': "\<forall>s\<in>set [3, 3 :: real]. \<bar>s\<bar> \<le> 10 ^ 38"
    by simp_all
  have b: "Max (set (map abs ?xs)) \<le> 10 ^ 38" by simp
  have sp: "Min (set ?xs) < Max (set ?xs)" by simp
  have i0: "0 < length ?xs" and i1: "1 < length ?xs" and i2: "2 < length ?xs" by simp_all
  have lo: "?xs ! 0 = Min (set ?xs)" and hi: "?xs ! 1 = Max (set ?xs)" by simp_all
  have wide: "1 \<le> Max (set ?xs) - Min (set ?xs)" by simp
  have e: "\<forall>x\<in>set [3, 3 :: real]. \<forall>y\<in>set [3, 3]. x = y" by simp
  note t = normalize_scores_batch [OF h1 h2]
  note range = t [THEN conjunct2, THEN conjunct1, rule_format, OF i1]
  note spread = t [THEN conjunct2, THEN conjunct2, THEN conjunct2, THEN conjunct1, rule_format, OF sp]
  note at0 = spread [OF i0, THEN conjunct1, rule_format, OF lo]
  note at1 = spread [OF i1, THEN conjunct2, rule_format, OF hi]
  note c1 = at1 [THEN conjunct2, THEN conjunct2, rule_format, OF wide]
  note c2 = at1 [THEN conjunct2, THEN conjunct1, rule_format, OF i2]
  note c3 = range [THEN conjunct2]
  note u = normalize_scores_batch [OF h1' h2', THEN conjunct2, THEN conjunct2, THEN conjunct2,
      THEN conjunct2, THEN mp, OF e]
  have c4: "normalize_scores [3, 3] = [1 / 2, 1 / 2]"
    using u by (simp add: numeral_2_eq_2)
  from h1 b at0 c1 c3 c2 c4 show ?thesis by (intro conjI)
qed

text \<open>
  C1 as stated fails: with the raw scores \<open>[0, 1e-6]\<close> the candidate holding the maximum
  is normalized to 0.5, which is not within \<open>1e-6\<close> of 1.
\<close>

theorem normalize_scores_max_counterexample:
  "[0, 1 / 1000000] \<noteq> ([] :: real list)
   \<and> [0, 1 / 1000000] ! 1 = Max (set [0, 1 / 1000000 :: real])
   \<and> normalize_scores [0, 1 / 1000000] ! 1 = 1 / 2
   \<and> \<not> \<bar>normalize_scores [0, 1 / 1000000] ! 1 - 1\<bar> \<le> 1 / 1000000"
  by (simp add: normalize_scores_def)

section \<open>Writing the scores into the documents\<close>

lemma set_metadata_trace [simp]: "trace (set_metadata r k v w) = trace w"
  by (simp add: set_metadata_def)

lemma set_metadata_length [simp]: "length (heap (set_metadata r k v w)) = length (heap w)"
  by (simp add: set_metadata_def)

lemma set_metadata_other:
  "r' \<noteq> r \<Longrightarrow> heap (set_metadata r k v w) ! r' = heap w ! r'"
  by (simp add: set_metadata_def)

lemma set_metadata_page_content [simp]:
  "page_content (heap (set_metadata r k v w) ! r') = page_content (heap w ! r')"
  by (cases "r' = r"; cases "r < length (heap w)")
     (simp_all add: set_metadata_def list_update_beyond)

lemma set_metadata_key:
  "r < length (heap w) \<Longrightarrow> metadata (heap (set_metadata r k v w) ! r) k = Some v"
  by (simp add: set_metadata_def)

lemma set_metadata_other_key:
  "k' \<noteq> k \<Longrightarrow> metadata (heap (set_metadata r k v w) ! r') k' = metadata (heap w ! r') k'"
  by (cases "r' = r"; cases "r < length (heap w)")
     (simp_all add: set_metadata_def list_update_beyond)

lemma store_scores_trace: "trace (snd (store_scores i docs ns w)) = trace w"
  by (induction i docs ns w rule: store_scores.induct) simp_all

lemma store_scores_length: "length (heap (snd (store_scores i docs ns w))) = length (heap w)"
  by (induction i docs ns w rule: store_scores.induct) simp_all

lemma store_scores_page_content:
  "page_content (heap (snd (store_scores i docs ns w)) ! r) = page_content (heap w ! r)"
  by (induction i docs ns w rule: store_scores.induct) simp_all

lemma store_scores_other_key:
  "k \<noteq> ''crossencoder_score'' \<Longrightarrow>
   metadata (heap (snd (store_scores i docs ns w)) ! r) k = metadata (heap w ! r) k"
  by (induction i docs ns w rule: store_scores.induct) (simp_all add: set_metadata_other_key)

lemma store_scores_untouched:
  "r \<notin> set docs \<Longrightarrow> heap (snd (store_scores i docs ns w)) ! r = heap w ! r"
  by (induction i docs ns w rule: store_scores.induct) (auto simp: set_metadata_other)

lemma store_scores_ok:
  "fst (store_scores i docs ns w) = None \<longleftrightarrow> docs = [] \<or> i + length docs \<le> length ns"
  by (induction i docs ns w rule: store_scores.induct) auto

lemma store_scores_error:
  "fst (store_scores i docs ns w) = Some e \<Longrightarrow> e = IndexError"
  by (induction i docs ns w rule: store_scores.induct) (auto split: if_splits)

text \<open>Every reference of the batch holds the score of its last position in the batch.\<close>

lemma store_scores_written:
  assumes "i + length docs \<le> length ns" "k < length docs" "docs ! k < length (heap w)"
  shows "\<exists>j<length docs. k \<le> j \<and> docs ! j = docs ! k \<and>
           metadata (heap (snd (store_scores i docs ns w)) ! (docs ! k)) ''crossencoder_score''
             = Some (MFloat (ns ! (i + j)))"
  using assms
proof (induction i docs ns w arbitrary: k rule: store_scores.induct)
  case (1 i ns w)
  then show ?case by simp
next
  case (2 i doc rest ns w)
  let ?w = "set_metadata doc ''crossencoder_score'' (MFloat (ns ! i)) w"
  have i: "i < length ns" and rest: "Suc i + length rest \<le> length ns"
    using "2.prems"(1) by simp_all
  show ?case
  proof (cases "(doc # rest) ! k \<in> set rest")
    case True
    then obtain k' where k': "k' < length rest" "rest ! k' = (doc # rest) ! k"
      by (auto simp: in_set_conv_nth)
    show ?thesis
    proof (cases k)
      case 0
      have "rest ! k' < length (heap ?w)" using k' "2.prems"(3) by simp
      from "2.IH" [OF i rest k'(1) this]
      obtain j where j: "j < length rest" "rest ! j = rest ! k'"
        "metadata (heap (snd (store_scores (Suc i) rest ns ?w)) ! (rest ! k')) ''crossencoder_score''
           = Some (MFloat (ns ! (Suc i + j)))"
        by blast
      show ?thesis
        using j k' 0 i by (intro exI [of _ "Suc j"]) simp
    next
      case (Suc m)
      have m: "m < length rest" using "2.prems"(2) Suc by simp
      have "rest ! m < length (heap ?w)" using "2.prems"(3) Suc by simp
      from "2.IH" [OF i rest m this]
      obtain j where j: "j < length rest" "m \<le> j" "rest ! j = rest ! m"
        "metadata (heap (snd (store_scores (Suc i) rest ns ?w)) ! (rest ! m)) ''crossencoder_score''
           = Some (MFloat (ns ! (Suc i + j)))"
        by blast
      show ?thesis
        using j Suc i by (intro exI [of _ "Suc j"]) simp
    qed
  next
    case False
    then have k0: "k = 0" using "2.prems"(2) by (cases k) auto
    have "heap (snd (store_scores (Suc i) rest ns ?w)) ! doc = heap ?w ! doc"
      using False k0 by (intro store_scores_untouched) simp
    moreover have "metadata (heap ?w ! doc) ''crossencoder_score'' = Some (MFloat (ns ! i))"
      using "2.prems"(3) k0 by (simp add: set_metadata_key)
    ultimately show ?thesis
      using k0 i by (intro exI [of _ 0]) simp
  qed
qed

lemma store_scores_written_distinct:
  assumes "i + length docs \<le> length ns" "k < length docs" "docs ! k < length (heap w)"
    and "distinct docs"
  shows "metadata (heap (snd (store_scores i docs ns w)) ! (docs ! k)) ''crossencoder_score''
           = Some (MFloat (ns ! (i + k)))"
proof -
  from store_scores_written [OF assms(1-3)]
  obtain j where j: "j < length docs" "docs ! j = docs ! k"
    "metadata (heap (snd (store_scores i docs ns w)) ! (docs ! k)) ''crossencoder_score''
       = Some (MFloat (ns ! (i + j)))"
    by blast
  from assms(4) j(1,2) assms(2) have "j = k"
    by (simp add: nth_eq_iff_index_eq)
  with j(3) show ?thesis by simp
qed

lemma log_event_heap [simp]: "heap (log_event e w) = heap w"
  by (simp add: log_event_def)

lemma log_event_trace [simp]: "trace (log_event e w) = trace w @ [e]"
  by (simp add: log_event_def)

subsection \<open>\<^verbatim>\<open>sorted(..., reverse=True)\<close>\<close>

lemma sorted_reverse_mset: "mset (sorted_reverse key xs) = mset xs"
  by (simp add: sorted_reverse_def)

lemma sorted_reverse_length: "length (sorted_reverse key xs) = length xs"
  by (simp add: sorted_reverse_def)

lemma sorted_reverse_set: "set (sorted_reverse key xs) = set xs"
  by (simp add: sorted_reverse_def)

lemma sorted_reverse_descending:
  "sorted_wrt (\<lambda>a b. a \<ge> b) (map key (sorted_reverse key xs))"
proof -
  have "sorted (map key (sort_key key (rev xs)))" by simp
  then have "sorted_wrt (\<lambda>a b. b \<le> a) (rev (map key (sort_key key (rev xs))))"
    by (simp only: sorted_wrt_rev)
  then show ?thesis by (simp add: sorted_reverse_def rev_map)
qed

lemma sorted_reverse_stable:
  "filter (\<lambda>x. key x = k) (sorted_reverse key xs) = filter (\<lambda>x. key x = k) xs"
proof -
  have "filter (\<lambda>x. key x = k) (sorted_reverse key xs)
          = rev (filter (\<lambda>x. key x = k) (sort_key key (rev xs)))"
    by (simp add: sorted_reverse_def rev_filter)
  also have "\<dots> = rev (filter (\<lambda>x. key x = k) (rev xs))"
    by (simp only: sort_key_stable)
  also have "\<dots> = filter (\<lambda>x. key x = k) xs"
    by (simp add: rev_filter)
  finally show ?thesis .
qed

lemma prefix_filter_take: "prefix (filter P (take n xs)) (filter P xs)"
proof -
  have "filter P xs = filter P (take n xs) @ filter P (drop n xs)"
    by (metis append_take_drop_id filter_append)
  then show ?thesis by (metis prefixI)
qed

subsection \<open>The three outcomes of \<^verbatim>\<open>merge_and_rerank_node\<close>\<close>

lemma merge_and_rerank_node_empty:
  assumes "candidates state = []"
  shows "merge_and_rerank_node ev state w
           = (Inr \<lparr>query = query state, retrieved_documents = []\<rparr>, w)"
  using assms by (simp add: merge_and_rerank_node_def)

lemma merge_and_rerank_node_nonempty:
  assumes "candidates state \<noteq> []"
  shows "merge_and_rerank_node ev state w =
     (case reranker_predict ev (rerank_pairs state w) of
        Inl e \<Rightarrow> (Inl e, log_event (RerankerPredict (rerank_pairs state w)) w)
      | Inr scores \<Rightarrow>
          if scores = [] then (Inl ValueError, log_event (RerankerPredict (rerank_pairs state w)) w)
          else (case store_scores 0 (candidates state) (normalize_scores scores)
                       (log_event (RerankerPredict (rerank_pairs state w)) w) of
                  (Some e, w2) \<Rightarrow> (Inl e, w2)
                | (None, w2) \<Rightarrow>
                    (Inr \<lparr>query = query state,
                          retrieved_documents =
                            take NR_FINAL_DOCS
                              (map snd (sorted_reverse fst (zip scores (candidates state))))\<rparr>, w2)))"
  unfolding merge_and_rerank_node_def Let_def using assms by (simp only: if_False)

lemma merge_and_rerank_node_scored:
  assumes "candidates state \<noteq> []"
    and "reranker_predict ev (rerank_pairs state w) = Inr scores"
    and "length (candidates state) \<le> length scores"
  shows "merge_and_rerank_node ev state w
           = (Inr \<lparr>query = query state,
                  retrieved_documents =
                    take NR_FINAL_DOCS (map snd (sorted_reverse fst (zip scores (candidates state))))\<rparr>,
              snd (store_scores 0 (candidates state) (normalize_scores scores)
                     (log_event (RerankerPredict (rerank_pairs state w)) w)))"
proof -
  let ?w1 = "log_event (RerankerPredict (rerank_pairs state w)) w"
  let ?st = "store_scores 0 (candidates state) (normalize_scores scores) ?w1"
  have ne: "scores \<noteq> []" using assms(1,3) by auto
  obtain r w2 where st: "?st = (r, w2)" by (cases ?st)
  have "fst ?st = None"
    using assms(3) by (simp add: store_scores_ok normalize_scores_length)
  with st have r: "r = None" by simp
  show ?thesis
    unfolding merge_and_rerank_node_nonempty [OF assms(1)]
    using assms(2) ne st r by (simp del: store_scores.simps)
qed

lemma merge_and_rerank_node_returns:
  assumes "fst (merge_and_rerank_node ev state w) = Inr out" and "candidates state \<noteq> []"
  shows "\<exists>scores. reranker_predict ev (rerank_pairs state w) = Inr scores
           \<and> length (candidates state) \<le> length scores"
proof (cases "reranker_predict ev (rerank_pairs state w)")
  case (Inl e)
  with assms(1) show ?thesis
    unfolding merge_and_rerank_node_nonempty [OF assms(2)] by simp
next
  case (Inr scores)
  let ?w1 = "log_event (RerankerPredict (rerank_pairs state w)) w"
  let ?st = "store_scores 0 (candidates state) (normalize_scores scores) ?w1"
  have ne: "scores \<noteq> []"
    using assms(1) Inr unfolding merge_and_rerank_node_nonempty [OF assms(2)]
    by (auto split: if_splits)
  obtain r w2 where st: "?st = (r, w2)" by (cases ?st)
  have "r = None"
    using assms(1) Inr ne st unfolding merge_and_rerank_node_nonempty [OF assms(2)]
    by (cases r) (simp_all del: store_scores.simps)
  with st have "fst ?st = None" by simp
  then have "length (candidates state) \<le> length scores"
    using assms(2) by (auto simp: store_scores_ok normalize_scores_length)
  with Inr show ?thesis by simp
qed

lemma merge_and_rerank_node_invokes_reranker:
  assumes "candidates state \<noteq> []"
  shows "RerankerPredict (rerank_pairs state w)
           \<in> set (trace (snd (merge_and_rerank_node ev state w)))"
proof (cases "reranker_predict ev (rerank_pairs state w)")
  case (Inl e)
  then show ?thesis
    unfolding merge_and_rerank_node_nonempty [OF assms] by simp
next
  case (Inr scores)
  let ?w1 = "log_event (RerankerPredict (rerank_pairs state w)) w"
  let ?st = "store_scores 0 (candidates state) (normalize_scores scores) ?w1"
  have tr: "trace (snd ?st) = trace w @ [RerankerPredict (rerank_pairs state w)]"
    by (simp add: store_scores_trace)
  obtain r w2 where st: "?st = (r, w2)" by (cases ?st)
  with tr have "trace w2 = trace w @ [RerankerPredict (rerank_pairs state w)]" by simp
  then show ?thesis
    unfolding merge_and_rerank_node_nonempty [OF assms] using Inr st
    by (cases r) (simp_all del: store_scores.simps)
qed

lemma merge_and_rerank_node_length:
  assumes "fst (merge_and_rerank_node ev state w) = Inr out"
  shows "length (retrieved_documents out) = min NR_FINAL_DOCS (length (candidates state))"
proof (cases "candidates state = []")
  case True
  with assms show ?thesis by (auto simp: merge_and_rerank_node_empty)
next
  case False
  from merge_and_rerank_node_returns [OF assms False]
  obtain scores where sc: "reranker_predict ev (rerank_pairs state w) = Inr scores"
    "length (candidates state) \<le> length scores"
    by blast
  from merge_and_rerank_node_scored [OF False sc] assms
  have "retrieved_documents out
          = take NR_FINAL_DOCS (map snd (sorted_reverse fst (zip scores (candidates state))))"
    by auto
  then show ?thesis using sc(2) by (simp add: sorted_reverse_length)
qed

lemma merge_and_rerank_node_subset:
  assumes "fst (merge_and_rerank_node ev state w) = Inr out"
  shows "set (retrieved_documents out) \<subseteq> set (candidates state)"
proof (cases "candidates state = []")
  case True
  with assms show ?thesis by (auto simp: merge_and_rerank_node_empty)
next
  case False
  from merge_and_rerank_node_returns [OF assms False]
  obtain scores where sc: "reranker_predict ev (rerank_pairs state w) = Inr scores"
    "length (candidates state) \<le> length scores"
    by blast
  from merge_and_rerank_node_scored [OF False sc] assms
  have "retrieved_documents out
          = take NR_FINAL_DOCS (map snd (sorted_reverse fst (zip scores (candidates state))))"
    by auto
  moreover have "set (map snd (sorted_reverse fst (zip scores (candidates state))))
                   \<subseteq> set (candidates state)"
    by (auto simp: sorted_reverse_set dest: set_zip_rightD)
  ultimately show ?thesis using set_take_subset by fastforce
qed

lemma merge_and_rerank_node_total:
  assumes "candidates state \<noteq> [] \<longrightarrow>
             (\<exists>scores. reranker_predict ev (rerank_pairs state w) = Inr scores
                 \<and> length scores = length (candidates state))"
  shows "\<exists>out. fst (merge_and_rerank_node ev state w) = Inr out"
proof (cases "candidates state = []")
  case True
  then show ?thesis by (simp add: merge_and_rerank_node_empty)
next
  case False
  with assms obtain scores where sc: "reranker_predict ev (rerank_pairs state w) = Inr scores"
    "length scores = length (candidates state)"
    by blast
  then have "length (candidates state) \<le> length scores" by simp
  from merge_and_rerank_node_scored [OF False sc(1) this] show ?thesis by simp
qed

section \<open>Properties of the fusion step\<close>

text \<open>
  C2. For a non-empty batch that the reranker scores one for one, the fusion step returns
  the first \<^verbatim>\<open>NR_FINAL_DOCS\<close> candidates of the batch ordered by raw score. The ordered
  batch \<open>ranked\<close> is a rearrangement of the scored batch, its raw scores never increase
  along the sequence (nor along the returned prefix), and for every raw score \<open>s\<close> the
  candidates scored \<open>s\<close> stand in \<open>ranked\<close> in the order of the concatenated input; those
  of them that are returned are the first ones of that order.
\<close>

theorem fusion_order_by_raw_score:
  assumes "candidates state \<noteq> []"
    and "reranker_predict ev (rerank_pairs state w) = Inr scores"
    and "length scores = length (candidates state)"
  shows "(let scored = zip scores (candidates state);
              ranked = sorted_reverse fst scored
          in fst (merge_and_rerank_node ev state w)
               = Inr \<lparr>query = query state,
                      retrieved_documents = map snd (take NR_FINAL_DOCS ranked)\<rparr>
           \<and> mset ranked = mset scored
           \<and> sorted_wrt (\<lambda>a b. a \<ge> b) (map fst ranked)
           \<and> sorted_wrt (\<lambda>a b. a \<ge> b) (map fst (take NR_FINAL_DOCS ranked))
           \<and> (\<forall>s. filter (\<lambda>p. fst p = s) ranked = filter (\<lambda>p. fst p = s) scored)
           \<and> (\<forall>s. prefix (filter (\<lambda>p. fst p = s) (take NR_FINAL_DOCS ranked))
                          (filter (\<lambda>p. fst p = s) scored)))"
proof -
  let ?scored = "zip scores (candidates state)"
  let ?ranked = "sorted_reverse fst ?scored"
  have res: "fst (merge_and_rerank_node ev state w)
               = Inr \<lparr>query = query state,
                      retrieved_documents = map snd (take NR_FINAL_DOCS ?ranked)\<rparr>"
    using merge_and_rerank_node_scored [OF assms(1,2)] assms(3) by (simp add: take_map)
  have desc: "sorted_wrt (\<lambda>a b. a \<ge> b) (map fst ?ranked)"
    by (rule sorted_reverse_descending)
  then have "sorted_wrt (\<lambda>a b. a \<ge> b) (take NR_FINAL_DOCS (map fst ?ranked))"
    by (rule sorted_wrt_take)
  then have desc_top: "sorted_wrt (\<lambda>a b. a \<ge> b) (map fst (take NR_FINAL_DOCS ?ranked))"
    by (simp add: take_map)
  have stable: "\<forall>s. filter (\<lambda>p. fst p = s) ?ranked = filter (\<lambda>p. fst p = s) ?scored"
    by (simp add: sorted_reverse_stable)
  have "\<forall>s. prefix (filter (\<lambda>p. fst p = s) (take NR_FINAL_DOCS ?ranked))
                    (filter (\<lambda>p. fst p = s) ?ranked)"
    by (simp add: prefix_filter_take)
  with stable have stable_top:
    "\<forall>s. prefix (filter (\<lambda>p. fst p = s) (take NR_FINAL_DOCS ?ranked))
               (filter (\<lambda>p. fst p = s) ?scored)"
    by simp
  from res desc desc_top stable stable_top sorted_reverse_mset [of fst ?scored]
  show ?thesis unfolding Let_def by blast
qed

text \<open>
  C4. Whenever the fusion step returns, the returned sequence has
  \<open>min K (number of concatenated candidates)\<close> entries with \<open>K = NR_FINAL_DOCS = 5\<close>, so
  at most 5 and at most as many as there are candidates; and it does return whenever the
  reranker, if consulted, yields one score per candidate.
\<close>

theorem fusion_result_length:
  "(\<forall>out. fst (merge_and_rerank_node ev state w) = Inr out \<longrightarrow>
       length (retrieved_documents out) = min NR_FINAL_DOCS (length (candidates state))
     \<and> length (retrieved_documents out) \<le> 5
     \<and> length (retrieved_documents out) \<le> length (semantic_docs state) + length (bm25_docs state))
   \<and> ((candidates state \<noteq> [] \<longrightarrow>
          (\<exists>scores. reranker_predict ev (rerank_pairs state w) = Inr scores
              \<and> length scores = length (candidates state)))
        \<longrightarrow> (\<exists>out. fst (merge_and_rerank_node ev state w) = Inr out))"
proof (intro conjI allI impI)
  fix out
  assume out: "fst (merge_and_rerank_node ev state w) = Inr out"
  then have len: "length (retrieved_documents out) = min NR_FINAL_DOCS (length (candidates state))"
    by (rule merge_and_rerank_node_length)
  then show "length (retrieved_documents out) = min NR_FINAL_DOCS (length (candidates state))" .
  from len show "length (retrieved_documents out) \<le> 5" by (simp add: NR_FINAL_DOCS_def)
  from len show "length (retrieved_documents out) \<le> length (semantic_docs state) + length (bm25_docs state)"
    by simp
next
  assume "candidates state \<noteq> [] \<longrightarrow>
          (\<exists>scores. reranker_predict ev (rerank_pairs state w) = Inr scores
              \<and> length scores = length (candidates state))"
  then show "\<exists>out. fst (merge_and_rerank_node ev state w) = Inr out"
    by (rule merge_and_rerank_node_total)
qed

text \<open>
  C5. When both candidate sequences are empty, the fusion step returns the empty result
  and leaves the world as it was: no call of the reranker is recorded, whatever the
  reranker would have answered. (By \<open>merge_and_rerank_node_invokes_reranker\<close> a non-empty
  batch does record the call.)
\<close>

theorem fusion_empty_batch:
  assumes "semantic_docs state = []" and "bm25_docs state = []"
  shows "merge_and_rerank_node ev state w
           = (Inr \<lparr>query = query state, retrieved_documents = []\<rparr>, w)
       \<and> trace (snd (merge_and_rerank_node ev state w)) = trace w"
  using assms by (simp add: merge_and_rerank_node_empty)

text \<open>
  C9. For a non-empty batch of live references that the reranker scores one for one, the
  fusion step returns at most \<^verbatim>\<open>NR_FINAL_DOCS\<close> of the candidates, but in the store it
  leaves behind every candidate of the concatenated batch, returned or not, carries a
  normalized score under \<^verbatim>\<open>crossencoder_score\<close>: the one of a position the object holds
  in the batch, which is its own position when the candidates are distinct objects. The
  objects written are the ones the input lists refer to.
\<close>

theorem fusion_annotates_whole_batch:
  assumes "candidates state \<noteq> []"
    and "reranker_predict ev (rerank_pairs state w) = Inr scores"
    and "length scores = length (candidates state)"
    and "\<forall>r\<in>set (candidates state). r < length (heap w)"
  shows "\<exists>out w'. merge_and_rerank_node ev state w = (Inr out, w')
       \<and> length (retrieved_documents out) \<le> NR_FINAL_DOCS
       \<and> set (retrieved_documents out) \<subseteq> set (candidates state)
       \<and> length (heap w') = length (heap w)
       \<and> (\<forall>k<length (candidates state). \<exists>j<length (candidates state).
              candidates state ! j = candidates state ! k
            \<and> metadata (heap w' ! (candidates state ! k)) ''crossencoder_score''
                = Some (MFloat (normalize_scores scores ! j)))
       \<and> (distinct (candidates state) \<longrightarrow>
            (\<forall>k<length (candidates state).
               metadata (heap w' ! (candidates state ! k)) ''crossencoder_score''
                 = Some (MFloat (normalize_scores scores ! k))))"
proof -
  let ?cs = "candidates state"
  let ?w1 = "log_event (RerankerPredict (rerank_pairs state w)) w"
  let ?w' = "snd (store_scores 0 ?cs (normalize_scores scores) ?w1)"
  let ?out = "\<lparr>query = query state,
               retrieved_documents = take NR_FINAL_DOCS (map snd (sorted_reverse fst (zip scores ?cs)))\<rparr>"
  have len: "0 + length ?cs \<le> length (normalize_scores scores)"
    using assms(3) by (simp add: normalize_scores_length)
  have valid: "\<And>k. k < length ?cs \<Longrightarrow> ?cs ! k < length (heap ?w1)"
    using assms(4) by (metis log_event_heap nth_mem)
  have run: "merge_and_rerank_node ev state w = (Inr ?out, ?w')"
    using merge_and_rerank_node_scored [OF assms(1,2)] assms(3) by simp
  have top: "length (retrieved_documents ?out) \<le> NR_FINAL_DOCS" by simp
  have "set (map snd (sorted_reverse fst (zip scores ?cs))) \<subseteq> set ?cs"
    by (auto simp: sorted_reverse_set dest: set_zip_rightD)
  then have sub: "set (retrieved_documents ?out) \<subseteq> set ?cs"
    using set_take_subset by fastforce
  have hl: "length (heap ?w') = length (heap w)"
    by (simp add: store_scores_length)
  have every: "\<forall>k<length ?cs. \<exists>j<length ?cs. ?cs ! j = ?cs ! k
            \<and> metadata (heap ?w' ! (?cs ! k)) ''crossencoder_score''
                = Some (MFloat (normalize_scores scores ! j))"
  proof (intro allI impI)
    fix k assume k: "k < length ?cs"
    from store_scores_written [OF len k valid [OF k]]
    show "\<exists>j<length ?cs. ?cs ! j = ?cs ! k
            \<and> metadata (heap ?w' ! (?cs ! k)) ''crossencoder_score''
                = Some (MFloat (normalize_scores scores ! j))"
      by auto
  qed
  have dist: "distinct ?cs \<longrightarrow> (\<forall>k<length ?cs.
               metadata (heap ?w' ! (?cs ! k)) ''crossencoder_score''
                 = Some (MFloat (normalize_scores scores ! k)))"
  proof (intro allI impI)
    fix k assume d: "distinct ?cs" and k: "k < length ?cs"
    from store_scores_written_distinct [OF len k valid [OF k] d]
    show "metadata (heap ?w' ! (?cs ! k)) ''crossencoder_score''
                 = Some (MFloat (normalize_scores scores ! k))"
      by simp
  qed
  from run top sub hl every dist show ?thesis by blast
qed

section \<open>Properties of the two adapters\<close>

lemma semantic_loop_eq:
  "semantic_loop items docs w =
     (docs @ [length (heap w)..<length (heap w) + length items],
      w\<lparr>heap := heap w @ map (\<lambda>(doc, meta, distance). semantic_document doc meta distance) items\<rparr>)"
proof (induction items docs w rule: semantic_loop.induct)
  case (1 docs w)
  then show ?case by simp
next
  case (2 doc meta distance rest docs w)
  have "[length (heap w)..<length (heap w) + Suc (length rest)]
          = length (heap w) # [Suc (length (heap w))..<Suc (length (heap w)) + length rest]"
    by (simp add: upt_rec)
  with 2 show ?case by (simp add: new_document_def)
qed

lemma bm25_loop_eq:
  "bm25_loop i results n docs w =
     (docs @ [length (heap w)..<length (heap w) + length results],
      w\<lparr>heap := heap w @ map (\<lambda>(j, doc). bm25_document j n doc) (zip [i..<i + length results] results)\<rparr>)"
proof (induction i results n docs w rule: bm25_loop.induct)
  case (1 i n docs w)
  then show ?case by simp
next
  case (2 i doc rest n docs w)
  from 2 show ?case by (simp add: new_document_def upt_conv_Cons del: upt_Suc)
qed

lemma semantic_search_node_eq:
  assumes "collection_query ev [query state] NR_RETRIEVED_DOCS = Inr (ds # ds', ms # ms', xs # xs')"
  shows "semantic_search_node ev state w =
     (Inr (state\<lparr>semantic_docs :=
                 [length (heap w)..<length (heap w) + length (zip ds (zip ms xs))]\<rparr>),
      \<lparr>heap = heap w @ map (\<lambda>(doc, meta, distance). semantic_document doc meta distance)
                         (zip ds (zip ms xs)),
       trace = trace w @ [CollectionQuery [query state] NR_RETRIEVED_DOCS]\<rparr>)"
  using assms
  by (simp add: semantic_search_node_def Let_def item0_def semantic_loop_eq log_event_def)

lemma bm25_search_node_eq:
  assumes "collection_get ev = Inr (documents, metadatas)"
    and "bm25_retrieve ev (corpus_documents documents metadatas) NR_RETRIEVED_DOCS (query state)
           = Inr results"
  shows "bm25_search_node ev state w =
     (Inr (state\<lparr>bm25_docs := [length (heap w)..<length (heap w) + length results]\<rparr>),
      \<lparr>heap = heap w @ map (\<lambda>(j, doc). bm25_document j (length results) doc)
                         (zip [0..<length results] results),
       trace = trace w @ [CollectionGet, BM25Invoke (query state) NR_RETRIEVED_DOCS]\<rparr>)"
  using assms
  by (simp add: bm25_search_node_def Let_def bm25_loop_eq log_event_def)

lemma bm25_search_node_failed:
  assumes "collection_get ev = Inl e
         \<or> (\<exists>documents metadatas. collection_get ev = Inr (documents, metadatas)
              \<and> bm25_retrieve ev (corpus_documents documents metadatas) NR_RETRIEVED_DOCS (query state)
                  = Inl e)"
  shows "\<exists>w'. bm25_search_node ev state w = (Inr (state\<lparr>bm25_docs := []\<rparr>), w')
            \<and> heap w' = heap w
            \<and> last (trace w') = Print (''[ERROR] BM25 retrieval failed: '' @ error_str e)"
  using assms
  by (auto simp: bm25_search_node_def Let_def bm25_failed_def log_event_def)

lemma bm25_search_node_total:
  "\<exists>state' w'. bm25_search_node ev state w = (Inr state', w')"
  by (auto simp: bm25_search_node_def Let_def bm25_failed_def split: sum.splits prod.splits)

lemma upt_two_blocks: "[a..<a + n] @ [a + n..<a + n + m] = [a..<a + n + (m::nat)]"
  using upt_add_eq_append [of a "a + n" m] by simp

lemma semantic_document_tags:
  "metadata (semantic_document doc meta distance) ''retrieval_method'' = Some (MStr ''vector'')"
  "metadata (semantic_document doc meta distance) ''bm25_score'' = Some (MFloat 0)"
  "metadata (semantic_document doc meta distance) ''vector_score'' = Some (MFloat (max 0 (1 - distance)))"
  "page_content (semantic_document doc meta distance) = doc"
  by (simp_all add: semantic_document_def)

lemma bm25_document_tags:
  "metadata (bm25_document i n doc) ''retrieval_method'' = Some (MStr ''bm25'')"
  "metadata (bm25_document i n doc) ''vector_score'' = Some (MFloat 0)"
  "metadata (bm25_document i n doc) ''bm25_score'' = Some (MFloat (1 - real i / real n))"
  "page_content (bm25_document i n doc) = page_content doc"
  by (simp_all add: bm25_document_def)

text \<open>
  C8. When the lexical search returns a non-empty result list of length \<open>m\<close>, the node
  keeps one candidate per result, in rank order, and the candidate at 0-indexed rank \<open>i\<close>
  carries the lexical score \<open>1 - i / m\<close> under \<^verbatim>\<open>bm25_score\<close>; the top-ranked one carries
  exactly 1. Here \<open>m\<close> is the length of the result list, not of the corpus.
\<close>

theorem bm25_scores_decay_linearly:
  assumes "collection_get ev = Inr (documents, metadatas)"
    and "bm25_retrieve ev (corpus_documents documents metadatas) NR_RETRIEVED_DOCS (query state)
           = Inr results"
    and "results \<noteq> []"
  shows "\<exists>state' w'. bm25_search_node ev state w = (Inr state', w')
       \<and> length (bm25_docs state') = length results
       \<and> (\<forall>i<length results.
              bm25_docs state' ! i < length (heap w')
            \<and> page_content (heap w' ! (bm25_docs state' ! i)) = page_content (results ! i)
            \<and> metadata (heap w' ! (bm25_docs state' ! i)) ''bm25_score''
                = Some (MFloat (1 - real i / real (length results))))
       \<and> metadata (heap w' ! (bm25_docs state' ! 0)) ''bm25_score'' = Some (MFloat 1)"
proof -
  let ?m = "length results"
  let ?new = "map (\<lambda>(j, doc). bm25_document j ?m doc) (zip [0..<?m] results)"
  let ?state' = "state\<lparr>bm25_docs := [length (heap w)..<length (heap w) + ?m]\<rparr>"
  let ?w' = "\<lparr>heap = heap w @ ?new,
              trace = trace w @ [CollectionGet, BM25Invoke (query state) NR_RETRIEVED_DOCS]\<rparr>"
  have run: "bm25_search_node ev state w = (Inr ?state', ?w')"
    using assms(1,2) by (rule bm25_search_node_eq)
  have at: "heap ?w' ! (bm25_docs ?state' ! i) = bm25_document i ?m (results ! i)"
    if "i < ?m" for i
    using that by (simp add: nth_append)
  have each: "\<forall>i<?m. bm25_docs ?state' ! i < length (heap ?w')
            \<and> page_content (heap ?w' ! (bm25_docs ?state' ! i)) = page_content (results ! i)
            \<and> metadata (heap ?w' ! (bm25_docs ?state' ! i)) ''bm25_score''
                = Some (MFloat (1 - real i / real ?m))"
  proof (intro allI impI)
    fix i assume i: "i < ?m"
    then have "bm25_docs ?state' ! i < length (heap ?w')" by simp
    with at [OF i] show "bm25_docs ?state' ! i < length (heap ?w')
            \<and> page_content (heap ?w' ! (bm25_docs ?state' ! i)) = page_content (results ! i)
            \<and> metadata (heap ?w' ! (bm25_docs ?state' ! i)) ''bm25_score''
                = Some (MFloat (1 - real i / real ?m))"
      by (simp only: bm25_document_tags)
  qed
  have "0 < ?m" using assms(3) by simp
  from at [OF this]
  have top: "metadata (heap ?w' ! (bm25_docs ?state' ! 0)) ''bm25_score'' = Some (MFloat 1)"
    by (simp only: bm25_document_tags) simp
  have len: "length (bm25_docs ?state') = ?m" by simp
  from run len each top show ?thesis by blast
qed

text \<open>
  C6. The method tags of the specification are the strings \<^verbatim>\<open>"vector"\<close> and \<^verbatim>\<open>"bm25"\<close>
  of the source, and its lexical score is the key \<^verbatim>\<open>bm25_score\<close>. When both searches
  return, every candidate of the vector adapter is tagged \<^verbatim>\<open>vector\<close>, carries its own
  vector score \<open>max 0 (1 - distance)\<close> and the lexical score 0; every candidate of the
  lexical adapter is tagged \<^verbatim>\<open>bm25\<close>, carries its own lexical score \<open>1 - i / m\<close> and
  the vector score 0. Each adapter keeps one candidate per chunk it was given, and all
  candidates of the two lists are distinct objects: a chunk returned by both searches has
  one entry in each list, each with the score of its own method only.
\<close>

theorem adapters_tag_their_candidates:
  assumes "collection_query ev [query state] NR_RETRIEVED_DOCS = Inr (ds # ds', ms # ms', xs # xs')"
    and "collection_get ev = Inr (documents, metadatas)"
    and "bm25_retrieve ev (corpus_documents documents metadatas) NR_RETRIEVED_DOCS (query state)
           = Inr results"
  shows "\<exists>state1 w1 state2 w2.
           semantic_search_node ev state w = (Inr state1, w1)
         \<and> bm25_search_node ev state1 w1 = (Inr state2, w2)
         \<and> semantic_docs state2 = semantic_docs state1
         \<and> map (\<lambda>r. page_content (heap w2 ! r)) (semantic_docs state2)
             = map fst (zip ds (zip ms xs))
         \<and> map (\<lambda>r. page_content (heap w2 ! r)) (bm25_docs state2) = map page_content results
         \<and> map (\<lambda>r. metadata (heap w2 ! r) ''vector_score'') (semantic_docs state2)
             = map (\<lambda>(doc, meta, distance). Some (MFloat (max 0 (1 - distance))))
                 (zip ds (zip ms xs))
         \<and> map (\<lambda>r. metadata (heap w2 ! r) ''bm25_score'') (bm25_docs state2)
             = map (\<lambda>i. Some (MFloat (1 - real i / real (length results)))) [0..<length results]
         \<and> (\<forall>r\<in>set (semantic_docs state2).
                metadata (heap w2 ! r) ''retrieval_method'' = Some (MStr ''vector'')
              \<and> metadata (heap w2 ! r) ''bm25_score'' = Some (MFloat 0))
         \<and> (\<forall>r\<in>set (bm25_docs state2).
                metadata (heap w2 ! r) ''retrieval_method'' = Some (MStr ''bm25'')
              \<and> metadata (heap w2 ! r) ''vector_score'' = Some (MFloat 0))
         \<and> distinct (semantic_docs state2 @ bm25_docs state2)"
proof -
  let ?items = "zip ds (zip ms xs)"
  let ?n = "length ?items" and ?m = "length results" and ?l = "length (heap w)"
  let ?S = "map (\<lambda>(doc, meta, distance). semantic_document doc meta distance) ?items"
  let ?B = "map (\<lambda>(j, doc). bm25_document j ?m doc) (zip [0..<?m] results)"
  let ?state1 = "state\<lparr>semantic_docs := [?l..<?l + ?n]\<rparr>"
  let ?w1 = "\<lparr>heap = heap w @ ?S,
              trace = trace w @ [CollectionQuery [query state] NR_RETRIEVED_DOCS]\<rparr>"
  let ?state2 = "?state1\<lparr>bm25_docs := [length (heap ?w1)..<length (heap ?w1) + ?m]\<rparr>"
  let ?w2 = "\<lparr>heap = heap ?w1 @ ?B,
              trace = trace ?w1 @ [CollectionGet, BM25Invoke (query ?state1) NR_RETRIEVED_DOCS]\<rparr>"
  have run1: "semantic_search_node ev state w = (Inr ?state1, ?w1)"
    using assms(1) by (rule semantic_search_node_eq)
  have "bm25_retrieve ev (corpus_documents documents metadatas) NR_RETRIEVED_DOCS (query ?state1)
          = Inr results"
    using assms(3) by simp
  with assms(2) have run2: "bm25_search_node ev ?state1 ?w1 = (Inr ?state2, ?w2)"
    by (rule bm25_search_node_eq)
  have sem: "semantic_docs ?state2 = [?l..<?l + ?n]" by simp
  have bm: "bm25_docs ?state2 = [?l + ?n..<?l + ?n + ?m]" by simp
  have hs: "heap ?w2 ! (?l + i) = ?S ! i" if "i < ?n" for i
    using that by (simp add: nth_append)
  have hb: "heap ?w2 ! (?l + ?n + i) = ?B ! i" if "i < ?m" for i
  proof -
    have "heap ?w2 = (heap w @ ?S) @ ?B" by simp
    moreover have "length (heap w @ ?S) = ?l + ?n" by simp
    ultimately show ?thesis by (metis nth_append_length_plus)
  qed
  have Si: "?S ! i = semantic_document (fst (?items ! i)) (fst (snd (?items ! i))) (snd (snd (?items ! i)))"
    if "i < ?n" for i
    using that by (simp add: split_beta del: length_zip nth_zip)
  have Bi: "?B ! i = bm25_document i ?m (results ! i)" if "i < ?m" for i
    using that by simp
  have c1: "map (\<lambda>r. page_content (heap ?w2 ! r)) (semantic_docs ?state2) = map fst ?items"
  proof (rule nth_equalityI)
    show "length (map (\<lambda>r. page_content (heap ?w2 ! r)) (semantic_docs ?state2)) = length (map fst ?items)"
      by simp
  next
    fix i assume "i < length (map (\<lambda>r. page_content (heap ?w2 ! r)) (semantic_docs ?state2))"
    then have i: "i < ?n" by simp
    then have "map (\<lambda>r. page_content (heap ?w2 ! r)) (semantic_docs ?state2) ! i
                 = page_content (heap ?w2 ! (?l + i))"
      by (simp del: length_zip nth_zip)
    also have "\<dots> = fst (?items ! i)"
      by (simp only: hs [OF i] Si [OF i] semantic_document_tags)
    finally show "map (\<lambda>r. page_content (heap ?w2 ! r)) (semantic_docs ?state2) ! i = map fst ?items ! i"
      using i by (simp del: length_zip nth_zip)
  qed
  have c2: "map (\<lambda>r. page_content (heap ?w2 ! r)) (bm25_docs ?state2) = map page_content results"
  proof (rule nth_equalityI)
    show "length (map (\<lambda>r. page_content (heap ?w2 ! r)) (bm25_docs ?state2)) = length (map page_content results)"
      by simp
  next
    fix i assume "i < length (map (\<lambda>r. page_content (heap ?w2 ! r)) (bm25_docs ?state2))"
    then have i: "i < ?m" by simp
    then have "map (\<lambda>r. page_content (heap ?w2 ! r)) (bm25_docs ?state2) ! i
                 = page_content (heap ?w2 ! (?l + ?n + i))"
      by (simp del: length_zip nth_zip)
    also have "\<dots> = page_content (results ! i)"
      by (simp only: hb [OF i] Bi [OF i] bm25_document_tags)
    finally show "map (\<lambda>r. page_content (heap ?w2 ! r)) (bm25_docs ?state2) ! i = map page_content results ! i"
      using i by simp
  qed
  have c3: "\<forall>r\<in>set (semantic_docs ?state2).
                metadata (heap ?w2 ! r) ''retrieval_method'' = Some (MStr ''vector'')
              \<and> metadata (heap ?w2 ! r) ''bm25_score'' = Some (MFloat 0)"
  proof
    fix r assume "r \<in> set (semantic_docs ?state2)"
    then obtain i where i: "i < ?n" "r = ?l + i"
      unfolding sem by (auto simp del: length_zip intro: that [of "r - ?l"])
    show "metadata (heap ?w2 ! r) ''retrieval_method'' = Some (MStr ''vector'')
              \<and> metadata (heap ?w2 ! r) ''bm25_score'' = Some (MFloat 0)"
      unfolding i(2) by (simp only: hs [OF i(1)] Si [OF i(1)] semantic_document_tags)
  qed
  have c4: "\<forall>r\<in>set (bm25_docs ?state2).
                metadata (heap ?w2 ! r) ''retrieval_method'' = Some (MStr ''bm25'')
              \<and> metadata (heap ?w2 ! r) ''vector_score'' = Some (MFloat 0)"
  proof
    fix r assume "r \<in> set (bm25_docs ?state2)"
    then obtain i where i: "i < ?m" "r = ?l + ?n + i"
      unfolding bm by (auto simp del: length_zip intro: that [of "r - (?l + ?n)"])
    show "metadata (heap ?w2 ! r) ''retrieval_method'' = Some (MStr ''bm25'')
              \<and> metadata (heap ?w2 ! r) ''vector_score'' = Some (MFloat 0)"
      unfolding i(2) by (simp only: hb [OF i(1)] Bi [OF i(1)] bm25_document_tags)
  qed
  have "semantic_docs ?state2 @ bm25_docs ?state2 = [?l..<?l + ?n + ?m]"
    unfolding sem bm by (rule upt_two_blocks)
  then have c5: "distinct (semantic_docs ?state2 @ bm25_docs ?state2)"
    by (simp only: distinct_upt)
  have c0: "semantic_docs ?state2 = semantic_docs ?state1" by simp
  have c6: "map (\<lambda>r. metadata (heap ?w2 ! r) ''vector_score'') (semantic_docs ?state2)
              = map (\<lambda>(doc, meta, distance). Some (MFloat (max 0 (1 - distance)))) ?items"
  proof (rule nth_equalityI)
    show "length (map (\<lambda>r. metadata (heap ?w2 ! r) ''vector_score'') (semantic_docs ?state2))
            = length (map (\<lambda>(doc, meta, distance). Some (MFloat (max 0 (1 - distance)))) ?items)"
      by simp
  next
    fix i assume "i < length (map (\<lambda>r. metadata (heap ?w2 ! r) ''vector_score'') (semantic_docs ?state2))"
    then have i: "i < ?n" by simp
    then have "map (\<lambda>r. metadata (heap ?w2 ! r) ''vector_score'') (semantic_docs ?state2) ! i
                 = metadata (heap ?w2 ! (?l + i)) ''vector_score''"
      by (simp del: length_zip nth_zip)
    also have "\<dots> = Some (MFloat (max 0 (1 - snd (snd (?items ! i)))))"
      by (simp only: hs [OF i] Si [OF i] semantic_document_tags)
    finally show "map (\<lambda>r. metadata (heap ?w2 ! r) ''vector_score'') (semantic_docs ?state2) ! i
                 = map (\<lambda>(doc, meta, distance). Some (MFloat (max 0 (1 - distance)))) ?items ! i"
      using i by (simp add: split_beta del: length_zip nth_zip)
  qed
  have c7: "map (\<lambda>r. metadata (heap ?w2 ! r) ''bm25_score'') (bm25_docs ?state2)
              = map (\<lambda>i. Some (MFloat (1 - real i / real ?m))) [0..<?m]"
  proof (rule nth_equalityI)
    show "length (map (\<lambda>r. metadata (heap ?w2 ! r) ''bm25_score'') (bm25_docs ?state2))
            = length (map (\<lambda>i. Some (MFloat (1 - real i / real ?m))) [0..<?m])"
      by simp
  next
    fix i assume "i < length (map (\<lambda>r. metadata (heap ?w2 ! r) ''bm25_score'') (bm25_docs ?state2))"
    then have i: "i < ?m" by simp
    then have "map (\<lambda>r. metadata (heap ?w2 ! r) ''bm25_score'') (bm25_docs ?state2) ! i
                 = metadata (heap ?w2 ! (?l + ?n + i)) ''bm25_score''"
      by (simp del: length_zip nth_zip)
    also have "\<dots> = Some (MFloat (1 - real i / real ?m))"
      by (simp only: hb [OF i] Bi [OF i] bm25_document_tags)
    finally show "map (\<lambda>r. metadata (heap ?w2 ! r) ''bm25_score'') (bm25_docs ?state2) ! i
                 = map (\<lambda>i. Some (MFloat (1 - real i / real ?m))) [0..<?m] ! i"
      using i by simp
  qed
  from run1 run2 c0 c1 c2 c6 c7 c3 c4 c5 show ?thesis by blast
qed

section \<open>Failure of the lexical adapter\<close>

text \<open>
  C3. When the collection or the BM25 retriever raises inside the lexical adapter, the
  node returns normally with an empty lexical list and the store untouched. The fusion
  step then has the vector candidates as its whole batch: whatever it returns is drawn
  from them, \<open>min K (number of vector candidates)\<close> long, and it does return whenever
  the reranker, if consulted, yields one score per vector candidate.
\<close>

theorem bm25_failure_is_tolerated:
  assumes "collection_get ev = Inl e
         \<or> (\<exists>documents metadatas. collection_get ev = Inr (documents, metadatas)
              \<and> bm25_retrieve ev (corpus_documents documents metadatas) NR_RETRIEVED_DOCS (query state)
                  = Inl e)"
  shows "\<exists>w1. bm25_search_node ev state w = (Inr (state\<lparr>bm25_docs := []\<rparr>), w1)
       \<and> heap w1 = heap w
       \<and> candidates (state\<lparr>bm25_docs := []\<rparr>) = semantic_docs state
       \<and> (\<forall>out. fst (merge_and_rerank_node ev (state\<lparr>bm25_docs := []\<rparr>) w1) = Inr out \<longrightarrow>
              set (retrieved_documents out) \<subseteq> set (semantic_docs state)
            \<and> length (retrieved_documents out) = min NR_FINAL_DOCS (length (semantic_docs state)))
       \<and> ((semantic_docs state \<noteq> [] \<longrightarrow>
              (\<exists>scores. reranker_predict ev
                           (map (\<lambda>doc. (query state, page_content (heap w ! doc))) (semantic_docs state))
                         = Inr scores
                  \<and> length scores = length (semantic_docs state)))
            \<longrightarrow> (\<exists>out. fst (merge_and_rerank_node ev (state\<lparr>bm25_docs := []\<rparr>) w1) = Inr out))"
proof -
  let ?state = "state\<lparr>bm25_docs := []\<rparr>"
  from bm25_search_node_failed [OF assms]
  obtain w1 where w1: "bm25_search_node ev state w = (Inr ?state, w1)" "heap w1 = heap w"
    by blast
  have cs: "candidates ?state = semantic_docs state" by simp
  have derived: "\<forall>out. fst (merge_and_rerank_node ev ?state w1) = Inr out \<longrightarrow>
              set (retrieved_documents out) \<subseteq> set (semantic_docs state)
            \<and> length (retrieved_documents out) = min NR_FINAL_DOCS (length (semantic_docs state))"
    using merge_and_rerank_node_subset [of ev ?state w1]
      merge_and_rerank_node_length [of ev ?state w1]
    by (simp only: cs) blast
  have returns: "(semantic_docs state \<noteq> [] \<longrightarrow>
              (\<exists>scores. reranker_predict ev
                           (map (\<lambda>doc. (query state, page_content (heap w ! doc))) (semantic_docs state))
                         = Inr scores
                  \<and> length scores = length (semantic_docs state)))
            \<longrightarrow> (\<exists>out. fst (merge_and_rerank_node ev ?state w1) = Inr out)"
  proof
    assume "semantic_docs state \<noteq> [] \<longrightarrow>
              (\<exists>scores. reranker_predict ev
                           (map (\<lambda>doc. (query state, page_content (heap w ! doc))) (semantic_docs state))
                         = Inr scores
                  \<and> length scores = length (semantic_docs state))"
    then have "candidates ?state \<noteq> [] \<longrightarrow>
             (\<exists>scores. reranker_predict ev (rerank_pairs ?state w1) = Inr scores
                 \<and> length scores = length (candidates ?state))"
      using w1(2) by (simp add: o_def)
    then show "\<exists>out. fst (merge_and_rerank_node ev ?state w1) = Inr out"
      by (rule merge_and_rerank_node_total)
  qed
  from w1 cs derived returns show ?thesis by blast
qed

section \<open>Properties of the main workflow\<close>

lemma query_ai_eq:
  assumes "chat_invoke ev system_prompt user_prompt = Inr content"
  shows "query_ai ev system_prompt user_prompt w
           = (Inr (if content \<noteq> [] then str_strip ev content else []),
              log_event (ChatInvoke system_prompt user_prompt) w)"
  using assms by (simp add: query_ai_def)

lemma next_node_triage:
  "next_node ''triage'' (state\<lparr>InputState.query_type := Some label\<rparr>)
     = (if label = ''OUT_OF_SCOPE'' then Inr ''out_of_scope''
        else if label = ''DATA_QUESTION'' then Inr ''retrieval''
        else Inl (KeyError label))"
  by (simp add: next_node_def path_map_def)

lemma run_graph_END: "run_graph fuel ev END state w = (Inr state, w)"
  by simp

lemma run_graph_step:
  assumes "name \<noteq> END"
  shows "run_graph (Suc fuel) ev name state w =
     (case run_node ev name state (log_event (EnterNode name) w) of
        (Inl e, w1) \<Rightarrow> (Inl e, w1)
      | (Inr state', w1) \<Rightarrow>
          (case next_node name state' of
             Inl e \<Rightarrow> (Inl e, w1)
           | Inr dest \<Rightarrow> run_graph fuel ev dest state' w1))"
  using assms by simp

lemma triage_node_eq:
  assumes "chat_invoke ev triage_prompt_system (''Evaluate user query: '' @ InputState.query state)
             = Inr content"
  shows "triage_node ev state w
           = (Inr (state\<lparr>InputState.query_type :=
                        Some (if content \<noteq> [] then str_strip ev content else [])\<rparr>),
              log_event (ChatInvoke triage_prompt_system
                           (''Evaluate user query: '' @ InputState.query state)) w)"
  using assms by (simp add: triage_node_def Let_def query_ai_eq)

text \<open>
  C7. When the label \<^verbatim>\<open>query_ai\<close> returns for the triage prompt (the stripped answer of
  the chat model, or the empty text for an empty answer) is \<^verbatim>\<open>OUT_OF_SCOPE\<close>, the run
  returns the fixed message, leaves the store as it was, and records exactly three
  events: entering \<^verbatim>\<open>triage\<close>, the triage call of the chat model, and entering
  \<^verbatim>\<open>out_of_scope\<close>. No retrieval node is entered and neither the collection, the BM25
  retriever nor the reranker is called.
\<close>

theorem out_of_scope_short_circuits:
  assumes "chat_invoke ev triage_prompt_system (''Evaluate user query: '' @ question) = Inr content"
    and "(if content \<noteq> [] then str_strip ev content else []) = ''OUT_OF_SCOPE''"
  shows "main_rag_app_invoke ev question w
           = (Inr (Some ''Your query is out of scope.''),
              w\<lparr>trace := trace w @
                   [EnterNode ''triage'',
                    ChatInvoke triage_prompt_system (''Evaluate user query: '' @ question),
                    EnterNode ''out_of_scope'']\<rparr>)"
proof -
  let ?s0 = "\<lparr>InputState.query = question, InputState.query_type = None,
              InputState.retrieved_documents = None, InputState.answer = None\<rparr>"
  let ?s1 = "?s0\<lparr>InputState.query_type := Some ''OUT_OF_SCOPE''\<rparr>"
  let ?s2 = "?s1\<lparr>InputState.answer := Some ''Your query is out of scope.''\<rparr>"
  let ?w1 = "log_event (ChatInvoke triage_prompt_system (''Evaluate user query: '' @ question))
               (log_event (EnterNode ''triage'') w)"
  let ?w2 = "log_event (EnterNode ''out_of_scope'') ?w1"
  have t: "run_node ev ''triage'' ?s0 (log_event (EnterNode ''triage'') w) = (Inr ?s1, ?w1)"
    using triage_node_eq [of ev ?s0 content] assms by (simp add: run_node_def)
  have o: "run_node ev ''out_of_scope'' ?s1 ?w2 = (Inr ?s2, ?w2)"
    by (simp add: run_node_def out_of_scope_node_def)
  have n1: "next_node ''triage'' ?s1 = Inr ''out_of_scope''"
    by (simp only: next_node_triage refl if_True)
  have n2: "next_node ''out_of_scope'' ?s2 = Inr END"
    by (simp add: next_node_def edges_def)
  have "run_graph (Suc (Suc n)) ev ''triage'' ?s0 w = run_graph (Suc n) ev ''out_of_scope'' ?s1 ?w1"
    for n
    by (subst run_graph_step) (simp_all only: t n1 END_def prod.case sum.case, simp)
  moreover
  have "run_graph (Suc n) ev ''out_of_scope'' ?s1 ?w1 = run_graph n ev END ?s2 ?w2" for n
    by (subst run_graph_step) (simp_all only: o n2 prod.case sum.case, simp add: END_def)
  ultimately
  have run: "run_graph (Suc (Suc n)) ev ''triage'' ?s0 w = (Inr ?s2, ?w2)" for n
    by (simp only: run_graph_END)
  have fuel: "recursion_limit = Suc (Suc 23)" by (simp add: recursion_limit_def)
  show ?thesis
    unfolding main_rag_app_invoke_def fuel run by (simp add: log_event_def)
qed

text \<open>
  C10. The label \<^verbatim>\<open>query_ai\<close> returns for the triage prompt is stored under
  \<^verbatim>\<open>query_type\<close> as it is, and the branch after \<^verbatim>\<open>triage\<close> is \<^verbatim>\<open>out_of_scope\<close>
  exactly for the label \<^verbatim>\<open>OUT_OF_SCOPE\<close> and \<^verbatim>\<open>retrieval\<close> exactly for
  \<^verbatim>\<open>DATA_QUESTION\<close>. For any other label the dict of the conditional edge has no
  entry, no further node is entered (the run records the triage node and its call only),
  and the run ends with the failed lookup rather than with the out-of-scope message.
\<close>

theorem unrecognized_label_selects_no_branch:
  assumes "chat_invoke ev triage_prompt_system (''Evaluate user query: '' @ question) = Inr content"
    and "label = (if content \<noteq> [] then str_strip ev content else [])"
    and "label \<noteq> ''OUT_OF_SCOPE''" and "label \<noteq> ''DATA_QUESTION''"
  shows "(let state0 = \<lparr>InputState.query = question, InputState.query_type = None,
                        InputState.retrieved_documents = None, InputState.answer = None\<rparr>;
              user_prompt = ''Evaluate user query: '' @ question
          in (\<forall>w'. fst (query_ai ev triage_prompt_system user_prompt w') = Inr label)
           \<and> (\<forall>w'. fst (triage_node ev state0 w')
                      = Inr (state0\<lparr>InputState.query_type := Some label\<rparr>))
           \<and> map_of path_map label = None
           \<and> next_node ''triage'' (state0\<lparr>InputState.query_type := Some label\<rparr>)
               = Inl (KeyError label)
           \<and> main_rag_app_invoke ev question w
               = (Inl (KeyError label),
                  w\<lparr>trace := trace w @
                       [EnterNode ''triage'', ChatInvoke triage_prompt_system user_prompt]\<rparr>))
       \<and> (\<forall>l state. (next_node ''triage'' (state\<lparr>InputState.query_type := Some l\<rparr>)
                        = Inr ''out_of_scope'') = (l = ''OUT_OF_SCOPE''))
       \<and> (\<forall>l state. (next_node ''triage'' (state\<lparr>InputState.query_type := Some l\<rparr>)
                        = Inr ''retrieval'') = (l = ''DATA_QUESTION''))"
proof -
  let ?s0 = "\<lparr>InputState.query = question, InputState.query_type = None,
              InputState.retrieved_documents = None, InputState.answer = None\<rparr>"
  let ?u = "''Evaluate user query: '' @ question"
  let ?s1 = "?s0\<lparr>InputState.query_type := Some label\<rparr>"
  let ?w1 = "log_event (ChatInvoke triage_prompt_system ?u) (log_event (EnterNode ''triage'') w)"
  have a: "\<forall>w'. fst (query_ai ev triage_prompt_system ?u w') = Inr label"
    using query_ai_eq [OF assms(1)] assms(2) by simp
  have tn: "triage_node ev ?s0 w' = (Inr ?s1, log_event (ChatInvoke triage_prompt_system ?u) w')"
    for w'
    using triage_node_eq [of ev ?s0 content w'] assms(1,2) by simp
  then have b: "\<forall>w'. fst (triage_node ev ?s0 w') = Inr ?s1" by simp
  have c: "map_of path_map label = None"
    using assms(3,4) by (simp add: path_map_def)
  have d: "next_node ''triage'' ?s1 = Inl (KeyError label)"
    using assms(3,4) by (simp only: next_node_triage if_False)
  have t: "run_node ev ''triage'' ?s0 (log_event (EnterNode ''triage'') w) = (Inr ?s1, ?w1)"
    using tn by (simp add: run_node_def)
  have run: "run_graph (Suc n) ev ''triage'' ?s0 w = (Inl (KeyError label), ?w1)" for n
    by (subst run_graph_step) (simp_all only: t d END_def prod.case sum.case, simp)
  have fuel: "recursion_limit = Suc 24" by (simp add: recursion_limit_def)
  have e: "main_rag_app_invoke ev question w
             = (Inl (KeyError label),
                w\<lparr>trace := trace w @ [EnterNode ''triage'', ChatInvoke triage_prompt_system ?u]\<rparr>)"
    unfolding main_rag_app_invoke_def fuel run by (simp add: log_event_def)
  have f: "\<forall>l state. (next_node ''triage'' (state\<lparr>InputState.query_type := Some l\<rparr>)
                        = Inr ''out_of_scope'') = (l = ''OUT_OF_SCOPE'')"
    by (simp add: next_node_triage)
  have g: "\<forall>l state. (next_node ''triage'' (state\<lparr>InputState.query_type := Some l\<rparr>)
                        = Inr ''retrieval'') = (l = ''DATA_QUESTION'')"
    by (simp add: next_node_triage)
  from a b c d e f g show ?thesis unfolding Let_def by blast
qed

section \<open>The statements on the example inputs\<close>

lemma example_candidates: "candidates example_state = [0, 1, 2, 3, 4, 5, 6]"
  by (simp add: example_state_def)

lemma example_scores:
  "reranker_predict example_env (rerank_pairs example_state example_world)
     = Inr [3, 1, 4, 1, 5, 9, 2]"
  by (simp add: example_env_def example_state_def)

lemma example_ranked:
  "sorted_reverse fst (zip [3, 1, 4, 1, 5, 9, 2 :: real] [0, 1, 2, 3, 4, 5, 6 :: nat])
     = [(9, 5), (5, 4), (4, 2), (3, 0), (2, 6), (1, 1), (1, 3)]"
  by (simp add: sorted_reverse_def)

text \<open>
  The ordering on the example batch: raw scores \<open>[3, 1, 4, 1, 5, 9, 2]\<close> for the references
  \<open>0, \<dots>, 6\<close>. The two candidates scored 1 keep their input order, 1 before 3.
\<close>

theorem fusion_order_by_raw_score_witness:
  "candidates example_state \<noteq> []
   \<and> reranker_predict example_env (rerank_pairs example_state example_world)
       = Inr [3, 1, 4, 1, 5, 9, 2]
   \<and> length [3, 1, 4, 1, 5, 9, 2 :: real] = length (candidates example_state)
   \<and> fst (merge_and_rerank_node example_env example_state example_world)
       = Inr \<lparr>query = ''q'', retrieved_documents = [5, 4, 2, 0, 6]\<rparr>
   \<and> filter (\<lambda>p. fst p = 1)
        (sorted_reverse fst (zip [3, 1, 4, 1, 5, 9, 2] (candidates example_state)))
       = [(1, 1), (1, 3)]"
proof -
  have h1: "candidates example_state \<noteq> []" by (simp add: example_candidates)
  have h3: "length [3, 1, 4, 1, 5, 9, 2 :: real] = length (candidates example_state)"
    by (simp add: example_candidates)
  from fusion_order_by_raw_score [OF h1 example_scores h3]
  have run: "fst (merge_and_rerank_node example_env example_state example_world)
          = Inr \<lparr>query = query example_state,
                 retrieved_documents =
                   map snd (take NR_FINAL_DOCS
                     (sorted_reverse fst (zip [3, 1, 4, 1, 5, 9, 2] (candidates example_state))))\<rparr>"
    and stable: "\<forall>s. filter (\<lambda>p. fst p = s)
                (sorted_reverse fst (zip [3, 1, 4, 1, 5, 9, 2] (candidates example_state)))
           = filter (\<lambda>p. fst p = s) (zip [3, 1, 4, 1, 5, 9, 2] (candidates example_state))"
    unfolding Let_def by blast+
  have top: "fst (merge_and_rerank_node example_env example_state example_world)
          = Inr \<lparr>query = ''q'', retrieved_documents = [5, 4, 2, 0, 6]\<rparr>"
    using run unfolding example_candidates example_ranked
    by (simp add: NR_FINAL_DOCS_def example_state_def)
  from stable have "filter (\<lambda>p. fst p = 1)
           (sorted_reverse fst (zip [3, 1, 4, 1, 5, 9, 2] (candidates example_state)))
          = filter (\<lambda>p. fst p = 1) (zip [3, 1, 4, 1, 5, 9, 2] (candidates example_state))"
    by blast
  also have "\<dots> = [(1, 1), (1, 3)]"
    unfolding example_candidates by simp
  finally have ties: "filter (\<lambda>p. fst p = 1)
           (sorted_reverse fst (zip [3, 1, 4, 1, 5, 9, 2] (candidates example_state)))
          = [(1, 1), (1, 3)]" .
  from h1 h3 example_scores top ties show ?thesis by blast
qed

text \<open>
  Seven candidates, five returned.
\<close>

theorem fusion_result_length_witness:
  "length (candidates example_state) = 7
   \<and> (\<exists>out. fst (merge_and_rerank_node example_env example_state example_world) = Inr out
          \<and> length (retrieved_documents out) = 5)"
proof -
  have contract: "candidates example_state \<noteq> [] \<longrightarrow>
          (\<exists>scores. reranker_predict example_env (rerank_pairs example_state example_world)
                       = Inr scores
              \<and> length scores = length (candidates example_state))"
    using example_scores by (simp add: example_candidates)
  with fusion_result_length [of example_env example_state example_world]
  obtain out where out: "fst (merge_and_rerank_node example_env example_state example_world) = Inr out"
    by blast
  with fusion_result_length [of example_env example_state example_world]
  have "length (retrieved_documents out) = min NR_FINAL_DOCS (length (candidates example_state))"
    by blast
  then have "length (retrieved_documents out) = 5"
    by (simp add: example_candidates NR_FINAL_DOCS_def)
  with out show ?thesis by (auto simp: example_candidates)
qed

text \<open>
  The example state with both lists emptied.
\<close>

theorem fusion_empty_batch_witness:
  "semantic_docs (example_state\<lparr>semantic_docs := [], bm25_docs := []\<rparr>) = []
   \<and> bm25_docs (example_state\<lparr>semantic_docs := [], bm25_docs := []\<rparr>) = []
   \<and> merge_and_rerank_node example_env (example_state\<lparr>semantic_docs := [], bm25_docs := []\<rparr>)
        example_world
       = (Inr \<lparr>query = ''q'', retrieved_documents = []\<rparr>, example_world)"
proof -
  have h1: "semantic_docs (example_state\<lparr>semantic_docs := [], bm25_docs := []\<rparr>) = []" by simp
  have h2: "bm25_docs (example_state\<lparr>semantic_docs := [], bm25_docs := []\<rparr>) = []" by simp
  from fusion_empty_batch [OF h1 h2, of example_env example_world] h1 h2
  show ?thesis by (simp add: example_state_def)
qed

text \<open>
  On the example batch the candidate at reference 1 is not returned, had no score before
  the call, and holds the normalized score 0 after it.
\<close>

theorem fusion_annotates_whole_batch_witness:
  "candidates example_state \<noteq> []
   \<and> set (candidates example_state) \<subseteq> {..<length (heap example_world)}
   \<and> metadata (heap example_world ! 1) ''crossencoder_score'' = None
   \<and> (\<exists>out w'. merge_and_rerank_node example_env example_state example_world = (Inr out, w')
          \<and> retrieved_documents out = [5, 4, 2, 0, 6]
          \<and> metadata (heap w' ! 1) ''crossencoder_score'' = Some (MFloat 0)
          \<and> metadata (heap w' ! 6) ''crossencoder_score'' = Some (MFloat (1000000 / 8000001)))"
proof -
  have h1: "candidates example_state \<noteq> []" by (simp add: example_candidates)
  have h3: "length [3, 1, 4, 1, 5, 9, 2 :: real] = length (candidates example_state)"
    by (simp add: example_candidates)
  have h4: "\<forall>r\<in>set (candidates example_state). r < length (heap example_world)"
    by (simp add: example_candidates example_world_def)
  have before: "metadata (heap example_world ! 1) ''crossencoder_score'' = None"
    by (simp add: example_world_def)
  have d: "distinct (candidates example_state)" by (simp add: example_candidates)
  have n1: "normalize_scores [3, 1, 4, 1, 5, 9, 2] ! 1 = 0"
    and n6: "normalize_scores [3, 1, 4, 1, 5, 9, 2] ! 6 = 1000000 / 8000001"
    by (simp_all add: normalize_scores_def)
  from fusion_annotates_whole_batch [OF h1 example_scores h3 h4] d
  obtain out w' where run: "merge_and_rerank_node example_env example_state example_world = (Inr out, w')"
    and written: "\<forall>k<length (candidates example_state).
               metadata (heap w' ! (candidates example_state ! k)) ''crossencoder_score''
                 = Some (MFloat (normalize_scores [3, 1, 4, 1, 5, 9, 2] ! k))"
    by blast
  have k1: "1 < length (candidates example_state)" and k6: "6 < length (candidates example_state)"
    by (simp_all add: example_candidates)
  have c1: "candidates example_state ! 1 = 1" and c6: "candidates example_state ! 6 = 6"
    by (simp_all add: example_candidates)
  from written k1 have "metadata (heap w' ! (candidates example_state ! 1)) ''crossencoder_score''
                 = Some (MFloat (normalize_scores [3, 1, 4, 1, 5, 9, 2] ! 1))"
    by blast
  then have w1: "metadata (heap w' ! 1) ''crossencoder_score'' = Some (MFloat 0)"
    by (simp only: c1 n1)
  from written k6 have "metadata (heap w' ! (candidates example_state ! 6)) ''crossencoder_score''
                 = Some (MFloat (normalize_scores [3, 1, 4, 1, 5, 9, 2] ! 6))"
    by blast
  then have w6: "metadata (heap w' ! 6) ''crossencoder_score'' = Some (MFloat (1000000 / 8000001))"
    by (simp only: c6 n6)
  have "length (candidates example_state) \<le> length [3, 1, 4, 1, 5, 9, 2 :: real]"
    by (simp add: example_candidates)
  from merge_and_rerank_node_scored [OF h1 example_scores this] run
  have "retrieved_documents out
          = take NR_FINAL_DOCS (map snd (sorted_reverse fst
              (zip [3, 1, 4, 1, 5, 9, 2] (candidates example_state))))"
    by auto
  then have top: "retrieved_documents out = [5, 4, 2, 0, 6]"
    unfolding example_candidates example_ranked by (simp add: NR_FINAL_DOCS_def)
  from h4 have live: "set (candidates example_state) \<subseteq> {..<length (heap example_world)}"
    by blast
  from h1 live before run top w1 w6 show ?thesis by blast
qed

lemma example_get:
  "collection_get example_env = Inr ([''alpha'', ''gamma'', ''delta''], [None, None, None])"
  by (simp add: example_env_def)

lemma example_bm25:
  "bm25_retrieve example_env
     (corpus_documents [''alpha'', ''gamma'', ''delta''] [None, None, None])
     NR_RETRIEVED_DOCS (query example_state)
   = Inr (corpus_documents [''alpha'', ''gamma'', ''delta''] [None, None, None])"
  by (simp add: example_env_def corpus_documents_def NR_RETRIEVED_DOCS_def)

lemma example_query:
  "collection_query example_env [query example_state] NR_RETRIEVED_DOCS
     = Inr ([''alpha'', ''beta''] # [], [None, None] # [], [1 / 4, 3 / 2] # [])"
  by (simp add: example_env_def)

text \<open>
  Three lexical results: the scores are 1, 2/3 and 1/3.
\<close>

theorem bm25_scores_decay_linearly_witness:
  "corpus_documents [''alpha'', ''gamma'', ''delta''] [None, None, None] \<noteq> []
   \<and> (\<exists>state' w'. bm25_search_node example_env example_state example_world = (Inr state', w')
          \<and> length (bm25_docs state') = 3
          \<and> metadata (heap w' ! (bm25_docs state' ! 0)) ''bm25_score'' = Some (MFloat 1)
          \<and> metadata (heap w' ! (bm25_docs state' ! 1)) ''bm25_score'' = Some (MFloat (2 / 3))
          \<and> metadata (heap w' ! (bm25_docs state' ! 2)) ''bm25_score'' = Some (MFloat (1 / 3)))"
proof -
  let ?results = "corpus_documents [''alpha'', ''gamma'', ''delta''] [None, None, None]"
  have len: "length ?results = 3" by (simp add: corpus_documents_def)
  then have ne: "?results \<noteq> []" by auto
  from bm25_scores_decay_linearly [OF example_get example_bm25 ne, of example_world]
  obtain state' w' where run: "bm25_search_node example_env example_state example_world = (Inr state', w')"
    and n: "length (bm25_docs state') = length ?results"
    and each: "\<forall>i<length ?results.
        metadata (heap w' ! (bm25_docs state' ! i)) ''bm25_score''
          = Some (MFloat (1 - real i / real (length ?results)))"
    by blast
  have "(0::nat) < 3" "(1::nat) < 3" "(2::nat) < 3" by simp_all
  with each have
    "metadata (heap w' ! (bm25_docs state' ! 0)) ''bm25_score'' = Some (MFloat (1 - real 0 / real 3))"
    "metadata (heap w' ! (bm25_docs state' ! 1)) ''bm25_score'' = Some (MFloat (1 - real 1 / real 3))"
    "metadata (heap w' ! (bm25_docs state' ! 2)) ''bm25_score'' = Some (MFloat (1 - real 2 / real 3))"
    unfolding len by blast+
  then have
    "metadata (heap w' ! (bm25_docs state' ! 0)) ''bm25_score'' = Some (MFloat 1)"
    "metadata (heap w' ! (bm25_docs state' ! 1)) ''bm25_score'' = Some (MFloat (2 / 3))"
    "metadata (heap w' ! (bm25_docs state' ! 2)) ''bm25_score'' = Some (MFloat (1 / 3))"
    by simp_all
  with ne run n len show ?thesis by auto
qed

text \<open>
  The chunk \<^verbatim>\<open>alpha\<close> is returned by both searches and is kept once by each adapter, under
  its own tag.
\<close>

theorem adapters_tag_their_candidates_witness:
  "collection_query example_env [query example_state] NR_RETRIEVED_DOCS
     = Inr ([[''alpha'', ''beta'']], [[None, None]], [[1 / 4, 3 / 2]])
   \<and> (\<exists>state1 w1 state2 w2.
          semantic_search_node example_env example_state example_world = (Inr state1, w1)
        \<and> bm25_search_node example_env state1 w1 = (Inr state2, w2)
        \<and> map (\<lambda>r. page_content (heap w2 ! r)) (semantic_docs state2) = [''alpha'', ''beta'']
        \<and> map (\<lambda>r. page_content (heap w2 ! r)) (bm25_docs state2) = [''alpha'', ''gamma'', ''delta'']
        \<and> map (\<lambda>r. metadata (heap w2 ! r) ''vector_score'') (semantic_docs state2)
            = [Some (MFloat (3 / 4)), Some (MFloat 0)]
        \<and> map (\<lambda>r. metadata (heap w2 ! r) ''bm25_score'') (bm25_docs state2)
            = [Some (MFloat 1), Some (MFloat (2 / 3)), Some (MFloat (1 / 3))]
        \<and> map (\<lambda>r. metadata (heap w2 ! r) ''retrieval_method'') (semantic_docs state2)
            = [Some (MStr ''vector''), Some (MStr ''vector'')]
        \<and> map (\<lambda>r. metadata (heap w2 ! r) ''retrieval_method'') (bm25_docs state2)
            = [Some (MStr ''bm25''), Some (MStr ''bm25''), Some (MStr ''bm25'')]
        \<and> distinct (semantic_docs state2 @ bm25_docs state2))"
proof -
  from adapters_tag_their_candidates [OF example_query example_get example_bm25, of example_world]
  obtain state1 w1 state2 w2 where
    r1: "semantic_search_node example_env example_state example_world = (Inr state1, w1)"
    and r2: "bm25_search_node example_env state1 w1 = (Inr state2, w2)"
    and p1: "map (\<lambda>r. page_content (heap w2 ! r)) (semantic_docs state2)
               = map fst (zip [''alpha'', ''beta''] (zip [None, None :: metadata_dict option] [1 / 4, 3 / 2 :: real]))"
    and p2: "map (\<lambda>r. page_content (heap w2 ! r)) (bm25_docs state2)
               = map page_content (corpus_documents [''alpha'', ''gamma'', ''delta''] [None, None, None])"
    and s1: "map (\<lambda>r. metadata (heap w2 ! r) ''vector_score'') (semantic_docs state2)
               = map (\<lambda>(doc, meta, distance). Some (MFloat (max 0 (1 - distance))))
                   (zip [''alpha'', ''beta''] (zip [None, None :: metadata_dict option] [1 / 4, 3 / 2 :: real]))"
    and s2: "map (\<lambda>r. metadata (heap w2 ! r) ''bm25_score'') (bm25_docs state2)
               = map (\<lambda>i. Some (MFloat (1 - real i
                        / real (length (corpus_documents [''alpha'', ''gamma'', ''delta'']
                                          [None, None, None])))))
                   [0..<length (corpus_documents [''alpha'', ''gamma'', ''delta''] [None, None, None])]"
    and t1: "\<forall>r\<in>set (semantic_docs state2).
                metadata (heap w2 ! r) ''retrieval_method'' = Some (MStr ''vector'')
              \<and> metadata (heap w2 ! r) ''bm25_score'' = Some (MFloat 0)"
    and t2: "\<forall>r\<in>set (bm25_docs state2).
                metadata (heap w2 ! r) ''retrieval_method'' = Some (MStr ''bm25'')
              \<and> metadata (heap w2 ! r) ''vector_score'' = Some (MFloat 0)"
    and d: "distinct (semantic_docs state2 @ bm25_docs state2)"
    by blast
  from p1 have q1: "map (\<lambda>r. page_content (heap w2 ! r)) (semantic_docs state2) = [''alpha'', ''beta'']"
    by simp
  from p2 have q2: "map (\<lambda>r. page_content (heap w2 ! r)) (bm25_docs state2)
                      = [''alpha'', ''gamma'', ''delta'']"
    by (simp add: corpus_documents_def)
  from s1 have v1: "map (\<lambda>r. metadata (heap w2 ! r) ''vector_score'') (semantic_docs state2)
            = [Some (MFloat (3 / 4)), Some (MFloat 0)]"
    by simp
  have "[0..<length (corpus_documents [''alpha'', ''gamma'', ''delta''] [None, None, None])]
          = [0, 1, 2]"
    by (simp add: corpus_documents_def upt_rec)
  with s2 have v2: "map (\<lambda>r. metadata (heap w2 ! r) ''bm25_score'') (bm25_docs state2)
            = [Some (MFloat 1), Some (MFloat (2 / 3)), Some (MFloat (1 / 3))]"
    by (simp add: corpus_documents_def)
  from arg_cong [OF q1, of length] have l1: "length (semantic_docs state2) = 2" by simp
  from arg_cong [OF q2, of length] have l2: "length (bm25_docs state2) = 3" by simp
  from t1 have "map (\<lambda>r. metadata (heap w2 ! r) ''retrieval_method'') (semantic_docs state2)
                  = map (\<lambda>r. Some (MStr ''vector'')) (semantic_docs state2)"
    by (intro map_cong) auto
  also have "\<dots> = replicate 2 (Some (MStr ''vector''))"
    by (simp add: map_replicate_const l1)
  finally have m1: "map (\<lambda>r. metadata (heap w2 ! r) ''retrieval_method'') (semantic_docs state2)
            = [Some (MStr ''vector''), Some (MStr ''vector'')]"
    by (simp add: numeral_2_eq_2)
  from t2 have "map (\<lambda>r. metadata (heap w2 ! r) ''retrieval_method'') (bm25_docs state2)
                  = map (\<lambda>r. Some (MStr ''bm25'')) (bm25_docs state2)"
    by (intro map_cong) auto
  also have "\<dots> = replicate 3 (Some (MStr ''bm25''))"
    by (simp add: map_replicate_const l2)
  finally have m2: "map (\<lambda>r. metadata (heap w2 ! r) ''retrieval_method'') (bm25_docs state2)
            = [Some (MStr ''bm25''), Some (MStr ''bm25''), Some (MStr ''bm25'')]"
    by (simp add: numeral_3_eq_3)
  have "collection_query example_env [query example_state] NR_RETRIEVED_DOCS
     = Inr ([[''alpha'', ''beta'']], [[None, None]], [[1 / 4, 3 / 2]])"
    using example_query by simp
  with r1 r2 q1 q2 v1 v2 m1 m2 d show ?thesis by (intro conjI exI) assumption+
qed

text \<open>
  The collection raises during the lexical search: the fusion step ranks the four vector
  candidates of the example state.
\<close>

theorem bm25_failure_is_tolerated_witness:
  "collection_get (example_env\<lparr>collection_get := Inl (Exception ''store unreachable'')\<rparr>)
     = Inl (Exception ''store unreachable'')
   \<and> (\<exists>w1 out.
          bm25_search_node (example_env\<lparr>collection_get := Inl (Exception ''store unreachable'')\<rparr>)
            example_state example_world
            = (Inr (example_state\<lparr>bm25_docs := []\<rparr>), w1)
        \<and> fst (merge_and_rerank_node
                 (example_env\<lparr>collection_get := Inl (Exception ''store unreachable'')\<rparr>)
                 (example_state\<lparr>bm25_docs := []\<rparr>) w1) = Inr out
        \<and> set (retrieved_documents out) \<subseteq> {0, 1, 2, 3}
        \<and> length (retrieved_documents out) = 4)"
proof -
  let ?ev = "example_env\<lparr>collection_get := Inl (Exception ''store unreachable'')\<rparr>"
  let ?state = "example_state\<lparr>bm25_docs := []\<rparr>"
  have fails: "collection_get ?ev = Inl (Exception ''store unreachable'')" by simp
  then have h: "collection_get ?ev = Inl (Exception ''store unreachable'')
         \<or> (\<exists>documents metadatas. collection_get ?ev = Inr (documents, metadatas)
              \<and> bm25_retrieve ?ev (corpus_documents documents metadatas) NR_RETRIEVED_DOCS
                    (query example_state)
                  = Inl (Exception ''store unreachable''))"
    by (rule disjI1)
  have sem: "semantic_docs example_state = [0, 1, 2, 3]" by (simp add: example_state_def)
  have contract: "semantic_docs example_state \<noteq> [] \<longrightarrow>
              (\<exists>scores. reranker_predict ?ev
                           (map (\<lambda>doc. (query example_state, page_content (heap example_world ! doc)))
                              (semantic_docs example_state))
                         = Inr scores
                  \<and> length scores = length (semantic_docs example_state))"
    by (simp add: sem example_env_def)
  from bm25_failure_is_tolerated [OF h, of example_world]
  obtain w1 where run: "bm25_search_node ?ev example_state example_world = (Inr ?state, w1)"
    and derived: "\<forall>out. fst (merge_and_rerank_node ?ev ?state w1) = Inr out \<longrightarrow>
              set (retrieved_documents out) \<subseteq> set (semantic_docs example_state)
            \<and> length (retrieved_documents out)
                = min NR_FINAL_DOCS (length (semantic_docs example_state))"
    and returns: "(semantic_docs example_state \<noteq> [] \<longrightarrow>
              (\<exists>scores. reranker_predict ?ev
                           (map (\<lambda>doc. (query example_state, page_content (heap example_world ! doc)))
                              (semantic_docs example_state))
                         = Inr scores
                  \<and> length scores = length (semantic_docs example_state)))
            \<longrightarrow> (\<exists>out. fst (merge_and_rerank_node ?ev ?state w1) = Inr out)"
    by blast
  from returns contract obtain out where out: "fst (merge_and_rerank_node ?ev ?state w1) = Inr out"
    by blast
  with derived have "set (retrieved_documents out) \<subseteq> set (semantic_docs example_state)"
    and "length (retrieved_documents out) = min NR_FINAL_DOCS (length (semantic_docs example_state))"
    by blast+
  then have "set (retrieved_documents out) \<subseteq> {0, 1, 2, 3}"
    and "length (retrieved_documents out) = 4"
    by (simp_all add: sem NR_FINAL_DOCS_def)
  with fails run out show ?thesis by (intro conjI exI) assumption+
qed

text \<open>
  The chat model of the example answers the triage prompt with the out-of-scope label
  and a leading blank.
\<close>

theorem out_of_scope_short_circuits_witness:
  "str_strip example_env '' OUT_OF_SCOPE'' = ''OUT_OF_SCOPE''
   \<and> main_rag_app_invoke example_env ''What is the weather in Paris?'' example_world
       = (Inr (Some ''Your query is out of scope.''),
          \<lparr>heap = heap example_world,
           trace = [EnterNode ''triage'',
                    ChatInvoke triage_prompt_system
                      (''Evaluate user query: '' @ ''What is the weather in Paris?''),
                    EnterNode ''out_of_scope'']\<rparr>)"
proof -
  have h1: "chat_invoke example_env triage_prompt_system
              (''Evaluate user query: '' @ ''What is the weather in Paris?'')
            = Inr '' OUT_OF_SCOPE''"
    by (simp add: example_env_def)
  have s: "str_strip example_env '' OUT_OF_SCOPE'' = ''OUT_OF_SCOPE''"
    by (simp add: example_env_def example_strip_def ascii_space_def)
  then have h2: "(if '' OUT_OF_SCOPE'' \<noteq> [] then str_strip example_env '' OUT_OF_SCOPE'' else [])
                   = ''OUT_OF_SCOPE''"
    by simp
  have w: "example_world\<lparr>trace := trace example_world @
                   [EnterNode ''triage'',
                    ChatInvoke triage_prompt_system
                      (''Evaluate user query: '' @ ''What is the weather in Paris?''),
                    EnterNode ''out_of_scope'']\<rparr>
           = \<lparr>heap = heap example_world,
              trace = [EnterNode ''triage'',
                    ChatInvoke triage_prompt_system
                      (''Evaluate user query: '' @ ''What is the weather in Paris?''),
                    EnterNode ''out_of_scope'']\<rparr>"
    by (simp add: example_world_def)
  from out_of_scope_short_circuits [OF h1 h2, of example_world] s
  show ?thesis unfolding w by (intro conjI) assumption+
qed

text \<open>
  A chat model that answers the triage prompt with \<^verbatim>\<open>MAYBE\<close>.
\<close>

theorem unrecognized_label_selects_no_branch_witness:
  "''MAYBE'' \<noteq> ''OUT_OF_SCOPE'' \<and> ''MAYBE'' \<noteq> ''DATA_QUESTION''
   \<and> main_rag_app_invoke (example_env\<lparr>chat_invoke := \<lambda>system_prompt user_prompt. Inr ''MAYBE''\<rparr>)
        ''How many?'' example_world
       = (Inl (KeyError ''MAYBE''),
          \<lparr>heap = heap example_world,
           trace = [EnterNode ''triage'',
                    ChatInvoke triage_prompt_system (''Evaluate user query: '' @ ''How many?'')]\<rparr>)"
proof -
  let ?ev = "example_env\<lparr>chat_invoke := \<lambda>system_prompt user_prompt. Inr ''MAYBE''\<rparr>"
  have h1: "chat_invoke ?ev triage_prompt_system (''Evaluate user query: '' @ ''How many?'')
              = Inr ''MAYBE''"
    by simp
  have h2: "''MAYBE'' = (if ''MAYBE'' \<noteq> [] then str_strip ?ev ''MAYBE'' else [])"
    by (simp add: example_env_def example_strip_def ascii_space_def)
  have h3: "''MAYBE'' \<noteq> ''OUT_OF_SCOPE''" and h4: "''MAYBE'' \<noteq> ''DATA_QUESTION''"
    by simp_all
  have w: "example_world\<lparr>trace := trace example_world @
                   [EnterNode ''triage'',
                    ChatInvoke triage_prompt_system (''Evaluate user query: '' @ ''How many?'')]\<rparr>
           = \<lparr>heap = heap example_world,
              trace = [EnterNode ''triage'',
                    ChatInvoke triage_prompt_system (''Evaluate user query: '' @ ''How many?'')]\<rparr>"
    by (simp add: example_world_def)
  from unrecognized_label_selects_no_branch [OF h1 h2 h3 h4, of example_world]
  have "main_rag_app_invoke ?ev ''How many?'' example_world
          = (Inl (KeyError ''MAYBE''),
             example_world\<lparr>trace := trace example_world @
                   [EnterNode ''triage'',
                    ChatInvoke triage_prompt_system (''Evaluate user query: '' @ ''How many?'')]\<rparr>)"
    unfolding Let_def by blast
  with h3 h4 show ?thesis unfolding w by (intro conjI) assumption+
qed

end
